theory Spec2Isabelle
  imports Main "HOL-Library.Sublist" "HOL-Library.AList"
begin

section \<open>JavaScript strings\<close>

text \<open>
  A JavaScript string is a sequence of UTF-16 code units. A code unit is represented by
  its numeric value, so that a four-digit hexadecimal escape in JSON text denotes one
  element.
  ASCII literals of the source are written \<open>str ''...''\<close>.
  JavaScript numbers that count lines are represented by mathematical integers; the
  source's doubles are exact on integers of magnitude up to \<open>2 ^ 53\<close>.
\<close>

type_synonym jsstring = "nat list"

definition str :: "string \<Rightarrow> jsstring" where
  "str s = map of_char s"

text \<open>\<open>s.startsWith(p)\<close>, \<open>s.slice(n)\<close> for \<open>n \<ge> 0\<close> and \<open>xs.join(sep)\<close>.\<close>

definition startsWith :: "jsstring \<Rightarrow> jsstring \<Rightarrow> bool" where
  "startsWith s p = prefix p s"

definition slice_from :: "nat \<Rightarrow> jsstring \<Rightarrow> jsstring" where
  "slice_from n s = drop n s"

fun join :: "jsstring \<Rightarrow> jsstring list \<Rightarrow> jsstring" where
  "join sep [] = []"
| "join sep [x] = x"
| "join sep (x # y # ys) = x @ sep @ join sep (y # ys)"

text \<open>
  \<open>s.split(sep)\<close> with a string separator and no limit: the separator is searched from
  left to right, occurrences do not overlap, and the text after the last occurrence is
  the last element. \<open>cur\<close> is the segment read so far. With the empty separator the
  string is cut into its code units.
\<close>

function split_from :: "jsstring \<Rightarrow> jsstring \<Rightarrow> jsstring \<Rightarrow> jsstring list" where
  "split_from sep cur [] = [cur]"
| "split_from sep cur (c # cs) =
     (if sep \<noteq> [] \<and> prefix sep (c # cs)
      then cur # split_from sep [] (drop (length sep) (c # cs))
      else split_from sep (cur @ [c]) cs)"
  by pat_completeness auto
termination
  by (relation "measure (\<lambda>(sep, cur, s). length s)") auto

definition split :: "jsstring \<Rightarrow> jsstring \<Rightarrow> jsstring list" where
  "split s sep = (if sep = [] then map (\<lambda>c. [c]) s else split_from sep [] s)"

section \<open>page.tsx: the test fixtures\<close>

text \<open>
  \<open>TEST_FILES\<close>: the three built-in fixtures by key, each with the file name it is saved
  under and its content, line by line as in the template literals of the source.
\<close>

record test_file =
  name :: jsstring
  content :: jsstring

definition TEST_FILES :: "(string \<times> test_file) list" where
  "TEST_FILES =
     [(''s3'',
       \<lparr>name = str ''s3_bucket.tf'',
        content = concat
            [str ''resource \"aws_s3_bucket\" \"data\" {\<newline>'',
             str ''  bucket = \"my-data-bucket\"\<newline>'',
             str ''}\<newline>'',
             str ''\<newline>'',
             str ''resource \"aws_s3_bucket_acl\" \"data\" {\<newline>'',
             str ''  bucket = aws_s3_bucket.data.id\<newline>'',
             str ''  acl    = \"public-read\"\<newline>'',
             str ''}\<newline>'',
             str ''\<newline>'',
             str ''resource \"aws_s3_bucket_public_access_block\" \"data\" {\<newline>'',
             str ''  bucket = aws_s3_bucket.data.id\<newline>'',
             str ''  block_public_acls       = false\<newline>'',
             str ''  block_public_policy     = false\<newline>'',
             str ''  ignore_public_acls      = false\<newline>'',
             str ''  restrict_public_buckets = false\<newline>'',
             str ''}\<newline>'']\<rparr>),
      (''sg'',
       \<lparr>name = str ''security_group.tf'',
        content = concat
            [str ''resource \"aws_security_group\" \"web\" {\<newline>'',
             str ''  name        = \"web-sg\"\<newline>'',
             str ''  description = \"Allow web traffic\"\<newline>'',
             str ''  vpc_id      = var.vpc_id\<newline>'',
             str ''\<newline>'',
             str ''  ingress {\<newline>'',
             str ''    description = \"SSH from anywhere\"\<newline>'',
             str ''    from_port   = 22\<newline>'',
             str ''    to_port     = 22\<newline>'',
             str ''    protocol    = \"tcp\"\<newline>'',
             str ''    cidr_blocks = [\"0.0.0.0/0\"]\<newline>'',
             str ''  }\<newline>'',
             str ''\<newline>'',
             str ''  egress {\<newline>'',
             str ''    from_port   = 0\<newline>'',
             str ''    to_port     = 0\<newline>'',
             str ''    protocol    = \"-1\"\<newline>'',
             str ''    cidr_blocks = [\"0.0.0.0/0\"]\<newline>'',
             str ''  }\<newline>'',
             str ''}\<newline>'']\<rparr>),
      (''rds'',
       \<lparr>name = str ''rds.tf'',
        content = concat
            [str ''resource \"aws_db_instance\" \"main\" {\<newline>'',
             str ''  identifier           = \"main-db\"\<newline>'',
             str ''  allocated_storage    = 20\<newline>'',
             str ''  engine               = \"mysql\"\<newline>'',
             str ''  engine_version       = \"8.0\"\<newline>'',
             str ''  instance_class       = \"db.t3.micro\"\<newline>'',
             str ''  db_name              = \"mydb\"\<newline>'',
             str ''  username             = \"admin\"\<newline>'',
             str ''  password             = \"password123\"\<newline>'',
             str ''  skip_final_snapshot  = true\<newline>'',
             str ''  publicly_accessible  = true\<newline>'',
             str ''  storage_encrypted    = false\<newline>'',
             str ''}\<newline>'']\<rparr>)]"

section \<open>DiffViewer.tsx: the diff line model\<close>

datatype line_type = Add | Remove | Context | Hunk

record DiffLine =
  type :: line_type
  content :: jsstring

record LineNumbers =
  oldLine :: "int option"
  newLine :: "int option"

subsection \<open>The hunk header pattern\<close>

text \<open>
  \<open>line.content.match(/@@ -(\d+)(?:,\d+)? \+(\d+)(?:,\d+)? @@/)\<close> searches the content
  for the leftmost match. \<open>\d\<close> is an ASCII digit. After a run of digits the pattern
  continues with a comma or a space, so only the longest run can lead to a match, and the
  optional count is taken exactly when a comma and a digit follow: the backtracking
  search and the deterministic reading below find the same match.
\<close>

definition is_digit :: "nat \<Rightarrow> bool" where
  "is_digit c = (48 \<le> c \<and> c \<le> 57)"

text \<open>
  \<open>parseInt(ds, 10)\<close> on a non-empty string of digits: the integer that the digits
  denote. The source returns the Number nearest to it, which is this integer as long as
  it is at most \<open>2 ^ 53\<close>; the same bound keeps the line counters below exact, so a
  statement about a parsed start carries it as a hypothesis.
\<close>

definition parseInt :: "jsstring \<Rightarrow> int" where
  "parseInt ds = foldl (\<lambda>n c. 10 * n + (int c - 48)) 0 ds"

text \<open>The optional group \<open>(?:,\d+)?\<close>: what is left of the text after it.\<close>

fun skip_count :: "jsstring \<Rightarrow> jsstring" where
  "skip_count [] = []"
| "skip_count (c # r) =
     (if c = 44 \<and> takeWhile is_digit r \<noteq> [] then dropWhile is_digit r else c # r)"

text \<open>A match of the whole pattern that starts at the first code unit: the two groups.\<close>

definition match_here :: "jsstring \<Rightarrow> (jsstring \<times> jsstring) option" where
  "match_here s =
     (if \<not> prefix (str ''@@ -'') s then None
      else let s1 = drop 4 s; d1 = takeWhile is_digit s1 in
        if d1 = [] then None
        else let s2 = skip_count (dropWhile is_digit s1) in
          if \<not> prefix (str '' +'') s2 then None
          else let s3 = drop 2 s2; d2 = takeWhile is_digit s3 in
            if d2 = [] then None
            else let s4 = skip_count (dropWhile is_digit s3) in
              if prefix (str '' @@'') s4 then Some (d1, d2) else None)"

fun match_header :: "jsstring \<Rightarrow> (jsstring \<times> jsstring) option" where
  "match_header [] = match_here []"
| "match_header (c # cs) =
     (case match_here (c # cs) of Some m \<Rightarrow> Some m | None \<Rightarrow> match_header cs)"

text \<open>The two start lines \<open>parseInt(match[1], 10)\<close> and \<open>parseInt(match[2], 10)\<close>.\<close>

definition hunk_header :: "jsstring \<Rightarrow> (int \<times> int) option" where
  "hunk_header s = map_option (\<lambda>(a, b). (parseInt a, parseInt b)) (match_header s)"

text \<open>
  The header form \<open>@@ -oldStart[,oldCount] +newStart[,newCount] @@\<close> itself: the starts
  are non-empty strings of digits, a count is absent or a comma and such a string.
\<close>

definition decimal_digits :: "jsstring \<Rightarrow> bool" where
  "decimal_digits ds = (ds \<noteq> [] \<and> list_all is_digit ds)"

definition count_text :: "jsstring \<Rightarrow> bool" where
  "count_text c = (c = [] \<or> (hd c = 44 \<and> decimal_digits (tl c)))"

definition header_text :: "jsstring \<Rightarrow> jsstring \<Rightarrow> jsstring \<Rightarrow> jsstring \<Rightarrow> jsstring" where
  "header_text oldStart oldCount newStart newCount =
     str ''@@ -'' @ oldStart @ oldCount @ str '' +'' @ newStart @ newCount @ str '' @@''"

subsection \<open>computeLineNumbers\<close>

text \<open>
  The callback of \<open>lines.map\<close> reads and updates the two counters \<open>oldLine\<close> and
  \<open>newLine\<close> of the enclosing function; they are passed along the list.
\<close>

fun number_lines :: "int \<Rightarrow> int \<Rightarrow> DiffLine list \<Rightarrow> LineNumbers list" where
  "number_lines ol nl [] = []"
| "number_lines ol nl (l # ls) =
     (if type l = Hunk then
        (case hunk_header (content l) of
           Some (os, ns) \<Rightarrow>
             \<lparr>oldLine = None, newLine = None\<rparr> # number_lines (os - 1) (ns - 1) ls
         | None \<Rightarrow> \<lparr>oldLine = None, newLine = None\<rparr> # number_lines ol nl ls)
      else if type l = Remove then
        \<lparr>oldLine = Some (ol + 1), newLine = None\<rparr> # number_lines (ol + 1) nl ls
      else if type l = Add then
        \<lparr>oldLine = None, newLine = Some (nl + 1)\<rparr> # number_lines ol (nl + 1) ls
      else
        \<lparr>oldLine = Some (ol + 1), newLine = Some (nl + 1)\<rparr>
          # number_lines (ol + 1) (nl + 1) ls)"

definition computeLineNumbers :: "DiffLine list \<Rightarrow> LineNumbers list" where
  "computeLineNumbers lines = number_lines 0 0 lines"

text \<open>
  The lines of the old file, and of the new file, that come before position \<open>i\<close> of a
  diff, and the numbers a 1-based count gives the line at position \<open>i\<close>.
\<close>

definition old_before :: "DiffLine list \<Rightarrow> nat \<Rightarrow> int" where
  "old_before ls i =
     int (length (filter (\<lambda>l. type l = Remove \<or> type l = Context) (take i ls)))"

definition new_before :: "DiffLine list \<Rightarrow> nat \<Rightarrow> int" where
  "new_before ls i =
     int (length (filter (\<lambda>l. type l = Add \<or> type l = Context) (take i ls)))"

definition expected_numbers :: "DiffLine list \<Rightarrow> nat \<Rightarrow> LineNumbers" where
  "expected_numbers ls i =
     (case type (ls ! i) of
        Context \<Rightarrow>
          \<lparr>oldLine = Some (old_before ls i + 1), newLine = Some (new_before ls i + 1)\<rparr>
      | Add \<Rightarrow> \<lparr>oldLine = None, newLine = Some (new_before ls i + 1)\<rparr>
      | Remove \<Rightarrow> \<lparr>oldLine = Some (old_before ls i + 1), newLine = None\<rparr>
      | Hunk \<Rightarrow> \<lparr>oldLine = None, newLine = None\<rparr>)"

subsection \<open>SplitDiffView\<close>

text \<open>
  One column of the split view: a numbered row per element of \<open>content.split("\n")\<close>,
  followed by the placeholder when the array is empty.
\<close>

datatype row = Line int jsstring | Placeholder

definition numbered_rows :: "jsstring list \<Rightarrow> row list" where
  "numbered_rows ls = map (\<lambda>(idx, line). Line (int idx + 1) line) (enumerate 0 ls)"

definition split_column :: "jsstring \<Rightarrow> row list" where
  "split_column text =
     (let ls = split text (str ''\<newline>'')
      in numbered_rows ls @ (if length ls = 0 then [Placeholder] else []))"

section \<open>JSON values and \<open>JSON.parse\<close>\<close>

text \<open>
  The values \<open>JSON.parse\<close> returns. A number keeps its source text. An object keeps
  its members in source order; a repeated key overwrites, so a property read finds the
  last member with that key. \<open>undefined\<close> is \<open>None\<close> of \<open>json option\<close>.
\<close>

datatype json =
    JNull
  | JBool bool
  | JNumber jsstring
  | JString jsstring
  | JArray "json list"
  | JObject "(jsstring \<times> json) list"

datatype js_error = SyntaxError | TypeError

definition cu :: "char \<Rightarrow> nat" where
  "cu c = of_char c"

subsection \<open>Tokens\<close>

datatype token =
    TLBrace | TRBrace | TLBracket | TRBracket | TColon | TComma
  | TString jsstring
  | TNumber jsstring
  | TLiteral json

datatype lex_state =
    Between
  | InString jsstring
  | Escape jsstring
  | Unicode jsstring "nat list"
  | InNumber jsstring
  | InWord jsstring

definition is_ws :: "nat \<Rightarrow> bool" where
  "is_ws c = (c = 32 \<or> c = 9 \<or> c = 10 \<or> c = 13)"

definition is_alpha :: "nat \<Rightarrow> bool" where
  "is_alpha c = ((97 \<le> c \<and> c \<le> 122) \<or> (65 \<le> c \<and> c \<le> 90))"

definition is_number_char :: "nat \<Rightarrow> bool" where
  "is_number_char c =
     (is_digit c \<or> c = cu CHR ''-'' \<or> c = cu CHR ''+'' \<or> c = cu CHR ''.''
      \<or> c = cu CHR ''e'' \<or> c = cu CHR ''E'')"

definition punctuation :: "nat \<Rightarrow> token option" where
  "punctuation c =
     (if c = cu CHR ''{'' then Some TLBrace
      else if c = cu CHR ''}'' then Some TRBrace
      else if c = cu CHR ''['' then Some TLBracket
      else if c = cu CHR '']'' then Some TRBracket
      else if c = cu CHR '':'' then Some TColon
      else if c = cu CHR '','' then Some TComma
      else None)"

definition simple_escape :: "nat \<Rightarrow> nat option" where
  "simple_escape c =
     (if c = 34 \<or> c = 92 \<or> c = 47 then Some c
      else if c = cu CHR ''b'' then Some 8
      else if c = cu CHR ''f'' then Some 12
      else if c = cu CHR ''n'' then Some 10
      else if c = cu CHR ''r'' then Some 13
      else if c = cu CHR ''t'' then Some 9
      else None)"

definition hex_value :: "nat \<Rightarrow> nat option" where
  "hex_value c =
     (if is_digit c then Some (c - 48)
      else if 97 \<le> c \<and> c \<le> 102 then Some (c - 87)
      else if 65 \<le> c \<and> c \<le> 70 then Some (c - 55)
      else None)"

text \<open>
  The number grammar of JSON:
  \<open>-? (0 | [1-9][0-9]*) (. [0-9]+)? ([eE] [+-]? [0-9]+)?\<close>.
\<close>

definition exponent_ok :: "jsstring \<Rightarrow> bool" where
  "exponent_ok s =
     (case s of
        [] \<Rightarrow> True
      | c # r \<Rightarrow>
          (c = cu CHR ''e'' \<or> c = cu CHR ''E'') \<and>
          (let ds = (case r of
                       [] \<Rightarrow> []
                     | g # t \<Rightarrow> if g = cu CHR ''+'' \<or> g = cu CHR ''-'' then t else r)
           in ds \<noteq> [] \<and> list_all is_digit ds))"

definition fraction_ok :: "jsstring \<Rightarrow> bool" where
  "fraction_ok s =
     (case s of
        [] \<Rightarrow> True
      | c # r \<Rightarrow>
          if c = cu CHR ''.''
          then takeWhile is_digit r \<noteq> [] \<and> exponent_ok (dropWhile is_digit r)
          else exponent_ok s)"

definition valid_number :: "jsstring \<Rightarrow> bool" where
  "valid_number n =
     (let s = (case n of [] \<Rightarrow> [] | c # r \<Rightarrow> if c = cu CHR ''-'' then r else n)
      in case s of
           [] \<Rightarrow> False
         | c # r \<Rightarrow>
             if c = 48 then fraction_ok r
             else if is_digit c then fraction_ok (dropWhile is_digit r)
             else False)"

definition word_token :: "jsstring \<Rightarrow> token option" where
  "word_token w =
     (if w = str ''true'' then Some (TLiteral (JBool True))
      else if w = str ''false'' then Some (TLiteral (JBool False))
      else if w = str ''null'' then Some (TLiteral JNull)
      else None)"

text \<open>
  One code unit read between two tokens, and one code unit read in any state: the tokens
  it completes and the next state. A number or a word ends at the first code unit that
  cannot continue it, which is then read as between tokens. Two values that touch are
  rejected later by the grammar, so reading the longest run loses nothing.
\<close>

definition between_step :: "nat \<Rightarrow> (token list \<times> lex_state) option" where
  "between_step c =
     (if is_ws c then Some ([], Between)
      else if c = 34 then Some ([], InString [])
      else if c = cu CHR ''-'' \<or> is_digit c then Some ([], InNumber [c])
      else if is_alpha c then Some ([], InWord [c])
      else map_option (\<lambda>t. ([t], Between)) (punctuation c))"

definition emit_then :: "token option \<Rightarrow> nat \<Rightarrow> (token list \<times> lex_state) option" where
  "emit_then t c =
     (case t of
        None \<Rightarrow> None
      | Some tok \<Rightarrow> map_option (\<lambda>(ts, st). (tok # ts, st)) (between_step c))"

fun lex_step :: "lex_state \<Rightarrow> nat \<Rightarrow> (token list \<times> lex_state) option" where
  "lex_step Between c = between_step c"
| "lex_step (InString s) c =
     (if c = 34 then Some ([TString s], Between)
      else if c = 92 then Some ([], Escape s)
      else if c < 32 then None
      else Some ([], InString (s @ [c])))"
| "lex_step (Escape s) c =
     (if c = cu CHR ''u'' then Some ([], Unicode s [])
      else map_option (\<lambda>e. ([], InString (s @ [e]))) (simple_escape c))"
| "lex_step (Unicode s hs) c =
     (case hex_value c of
        None \<Rightarrow> None
      | Some h \<Rightarrow>
          if length hs = 3
          then Some ([], InString (s @ [foldl (\<lambda>n d. 16 * n + d) 0 (hs @ [h])]))
          else Some ([], Unicode s (hs @ [h])))"
| "lex_step (InNumber n) c =
     (if is_number_char c then Some ([], InNumber (n @ [c]))
      else emit_then (if valid_number n then Some (TNumber n) else None) c)"
| "lex_step (InWord w) c =
     (if is_alpha c then Some ([], InWord (w @ [c]))
      else emit_then (word_token w) c)"

fun lex_end :: "lex_state \<Rightarrow> token list option" where
  "lex_end Between = Some []"
| "lex_end (InNumber n) = (if valid_number n then Some [TNumber n] else None)"
| "lex_end (InWord w) = map_option (\<lambda>t. [t]) (word_token w)"
| "lex_end _ = None"

fun lex_run :: "lex_state \<Rightarrow> jsstring \<Rightarrow> token list option" where
  "lex_run st [] = lex_end st"
| "lex_run st (c # cs) =
     (case lex_step st c of
        None \<Rightarrow> None
      | Some (ts, st') \<Rightarrow> map_option ((@) ts) (lex_run st' cs))"

subsection \<open>Grammar\<close>

text \<open>
  The containers that are open, innermost first: an array with its elements so far, an
  object with its members so far and the key that waits for its value.
\<close>

datatype frame =
    FArray "json list"
  | FObject "(jsstring \<times> json) list" "jsstring option"

datatype expect =
    Value
  | ValueOrClose
  | KeyOrClose
  | Key
  | Colon
  | CommaOrClose
  | Done json

text \<open>A value is complete: it is the whole text, an element or the value of a member.\<close>

fun complete :: "json \<Rightarrow> frame list \<Rightarrow> (frame list \<times> expect) option" where
  "complete v [] = Some ([], Done v)"
| "complete v (FArray items # st) = Some (FArray (items @ [v]) # st, CommaOrClose)"
| "complete v (FObject members (Some k) # st) =
     Some (FObject (members @ [(k, v)]) None # st, CommaOrClose)"
| "complete v (FObject members None # st) = None"

fun begin_value :: "token \<Rightarrow> frame list \<Rightarrow> (frame list \<times> expect) option" where
  "begin_value (TString s) st = complete (JString s) st"
| "begin_value (TNumber n) st = complete (JNumber n) st"
| "begin_value (TLiteral v) st = complete v st"
| "begin_value TLBracket st = Some (FArray [] # st, ValueOrClose)"
| "begin_value TLBrace st = Some (FObject [] None # st, KeyOrClose)"
| "begin_value _ st = None"

fun begin_key :: "token \<Rightarrow> frame list \<Rightarrow> (frame list \<times> expect) option" where
  "begin_key (TString k) (FObject members None # st) = Some (FObject members (Some k) # st, Colon)"
| "begin_key _ _ = None"

fun close_container :: "token \<Rightarrow> frame list \<Rightarrow> (frame list \<times> expect) option" where
  "close_container TRBracket (FArray items # st) = complete (JArray items) st"
| "close_container TRBrace (FObject members None # st) = complete (JObject members) st"
| "close_container _ _ = None"

fun parse_step :: "frame list \<Rightarrow> expect \<Rightarrow> token \<Rightarrow> (frame list \<times> expect) option" where
  "parse_step st Value t = begin_value t st"
| "parse_step st ValueOrClose t =
     (if t = TRBracket then close_container t st else begin_value t st)"
| "parse_step st KeyOrClose t =
     (if t = TRBrace then close_container t st else begin_key t st)"
| "parse_step st Key t = begin_key t st"
| "parse_step st Colon t = (if t = TColon then Some (st, Value) else None)"
| "parse_step st CommaOrClose t =
     (if t = TComma
      then (case st of
              FArray items # r \<Rightarrow> Some (st, Value)
            | FObject members None # r \<Rightarrow> Some (st, Key)
            | _ \<Rightarrow> None)
      else close_container t st)"
| "parse_step st (Done v) t = None"

fun parse_run :: "frame list \<Rightarrow> expect \<Rightarrow> token list \<Rightarrow> json option" where
  "parse_run st (Done v) [] = Some v"
| "parse_run st e [] = None"
| "parse_run st e (t # ts) =
     (case parse_step st e t of
        None \<Rightarrow> None
      | Some (st', e') \<Rightarrow> parse_run st' e' ts)"

text \<open>\<open>JSON.parse(text)\<close>: the value, or the \<open>SyntaxError\<close> it throws.\<close>

definition JSON_parse :: "jsstring \<Rightarrow> js_error + json" where
  "JSON_parse text =
     (case lex_run Between text of
        None \<Rightarrow> Inl SyntaxError
      | Some ts \<Rightarrow>
          (case parse_run [] Value ts of
             None \<Rightarrow> Inl SyntaxError
           | Some v \<Rightarrow> Inr v))"

subsection \<open>Reading properties\<close>

text \<open>
  \<open>v.name\<close> for one of the names the source reads (\<open>message\<close>, \<open>operation_type\<close>,
  \<open>file_path\<close>, \<open>diff_lines\<close>, \<open>name\<close>, \<open>arguments\<close>, \<open>call_id\<close>, \<open>output\<close>,
  \<open>summary\<close>): none of them is a property of the prototypes of strings, numbers,
  booleans or arrays, so the read gives \<open>undefined\<close> unless the value is an object with
  that member. Reading a property of \<open>null\<close> throws a \<open>TypeError\<close>.
\<close>

fun get_prop :: "json \<Rightarrow> jsstring \<Rightarrow> js_error + json option" where
  "get_prop JNull k = Inl TypeError"
| "get_prop (JObject members) k = Inr (map_of (rev members) k)"
| "get_prop _ k = Inr None"

definition is_string :: "json option \<Rightarrow> bool" where
  "is_string v = (case v of Some (JString s) \<Rightarrow> True | _ \<Rightarrow> False)"

definition is_array :: "json option \<Rightarrow> bool" where
  "is_array v = (case v of Some (JArray xs) \<Rightarrow> True | _ \<Rightarrow> False)"

text \<open>
  A number is falsy when it is zero as a double: its decimal value \<open>m * 10 ^ scale\<close>
  is at most \<open>2 ^ -1075\<close>, half of the least positive double, and so rounds to zero.
\<close>

definition number_is_zero :: "jsstring \<Rightarrow> bool" where
  "number_is_zero n =
     (let s = (case n of [] \<Rightarrow> [] | c # r \<Rightarrow> if c = cu CHR ''-'' then r else n);
          ip = takeWhile is_digit s;
          s1 = dropWhile is_digit s;
          s2 = (case s1 of [] \<Rightarrow> [] | c # r \<Rightarrow> if c = cu CHR ''.'' then r else s1);
          fp = (if s2 = s1 then [] else takeWhile is_digit s2);
          s3 = (if s2 = s1 then s1 else dropWhile is_digit s2);
          ex = (case s3 of
                  [] \<Rightarrow> 0
                | c # r \<Rightarrow>
                    (case r of
                       [] \<Rightarrow> 0
                     | g # t \<Rightarrow>
                         if g = cu CHR ''-'' then - parseInt t
                         else if g = cu CHR ''+'' then parseInt t
                         else parseInt r));
          m = parseInt (ip @ fp);
          scale = ex - int (length fp)
      in m = 0 \<or> (scale < 0 \<and> m * 2 ^ 1075 \<le> 10 ^ nat (- scale)))"

fun truthy :: "json option \<Rightarrow> bool" where
  "truthy None = False"
| "truthy (Some JNull) = False"
| "truthy (Some (JBool b)) = b"
| "truthy (Some (JNumber n)) = (\<not> number_is_zero n)"
| "truthy (Some (JString s)) = (s \<noteq> [])"
| "truthy (Some (JArray xs)) = True"
| "truthy (Some (JObject members)) = True"

subsection \<open>isDiffData\<close>

text \<open>
  The body of the \<open>try\<close> block: \<open>&&\<close> evaluates its right operand only when the left one
  is truthy, so no property of \<open>null\<close> is read. The result is the parsed value when the
  condition holds, and nothing when control leaves the \<open>if\<close>.
\<close>

definition isDiffData_try :: "jsstring \<Rightarrow> js_error + json option" where
  "isDiffData_try output =
     (case JSON_parse output of
        Inl e \<Rightarrow> Inl e
      | Inr parsed \<Rightarrow>
          if \<not> truthy (Some parsed) then Inr None
          else (case get_prop parsed (str ''message'') of
             Inl e \<Rightarrow> Inl e
           | Inr message \<Rightarrow>
               if \<not> is_string message then Inr None
               else (case get_prop parsed (str ''operation_type'') of
                  Inl e \<Rightarrow> Inl e
                | Inr operation_type \<Rightarrow>
                    if \<not> is_string operation_type then Inr None
                    else (case get_prop parsed (str ''file_path'') of
                       Inl e \<Rightarrow> Inl e
                     | Inr file_path \<Rightarrow>
                         if \<not> is_string file_path then Inr None
                         else (case get_prop parsed (str ''diff_lines'') of
                            Inl e \<Rightarrow> Inl e
                          | Inr diff_lines \<Rightarrow>
                              if is_array diff_lines then Inr (Some parsed)
                              else Inr None)))))"

text \<open>
  \<open>isDiffData\<close>: the \<open>catch\<close> clause swallows every exception of the body, and the
  function then returns \<open>null\<close> (\<open>None\<close>), as it does when the condition fails.
\<close>

definition isDiffData :: "jsstring \<Rightarrow> js_error + json option" where
  "isDiffData output =
     (case isDiffData_try output of
        Inl e \<Rightarrow> Inr None
      | Inr (Some parsed) \<Rightarrow> Inr (Some parsed)
      | Inr None \<Rightarrow> Inr None)"


text \<open>
  The shape \<open>isDiffData\<close> checks, and the whole result shape of \<open>apply_patch\<close>: a member
  that is a string, a member that is an array, and a diff line with one of the four types
  and a string content.
\<close>

definition has_string :: "json \<Rightarrow> jsstring \<Rightarrow> bool" where
  "has_string v k = (case v of JObject members \<Rightarrow> is_string (map_of (rev members) k) | _ \<Rightarrow> False)"

definition has_array :: "json \<Rightarrow> jsstring \<Rightarrow> bool" where
  "has_array v k = (case v of JObject members \<Rightarrow> is_array (map_of (rev members) k) | _ \<Rightarrow> False)"

definition valid_diff_line :: "json \<Rightarrow> bool" where
  "valid_diff_line l =
     (has_string l (str ''content'') \<and>
      (case l of
         JObject members \<Rightarrow>
           (case map_of (rev members) (str ''type'') of
              Some (JString t) \<Rightarrow>
                t = str ''add'' \<or> t = str ''remove'' \<or> t = str ''context'' \<or> t = str ''hunk''
            | _ \<Rightarrow> False)
       | _ \<Rightarrow> False))"

definition complete_shape :: "json \<Rightarrow> bool" where
  "complete_shape v =
     (has_string v (str ''message'') \<and> has_string v (str ''operation_type'') \<and>
      has_string v (str ''file_path'') \<and> has_string v (str ''old_content'') \<and>
      has_string v (str ''new_content'') \<and>
      (case v of
         JObject members \<Rightarrow>
           (case map_of (rev members) (str ''diff_lines'') of
              Some (JArray ls) \<Rightarrow> list_all valid_diff_line ls
            | _ \<Rightarrow> False)
       | _ \<Rightarrow> False))"

section \<open>page.tsx: the server-sent event parser\<close>

text \<open>
  \<open>s.trim()\<close> removes the white space and line terminator code units of ECMAScript from
  both ends; \<open>s.replace(p, "")\<close> with a string pattern removes the first occurrence of
  \<open>p\<close>.
\<close>

definition is_js_space :: "nat \<Rightarrow> bool" where
  "is_js_space c =
     ((9 \<le> c \<and> c \<le> 13) \<or> c = 32 \<or> c = 160 \<or> c = 5760 \<or> (8192 \<le> c \<and> c \<le> 8202)
      \<or> c = 8232 \<or> c = 8233 \<or> c = 8239 \<or> c = 8287 \<or> c = 12288 \<or> c = 65279)"

definition trim :: "jsstring \<Rightarrow> jsstring" where
  "trim s = rev (dropWhile is_js_space (rev (dropWhile is_js_space s)))"

fun remove_first :: "jsstring \<Rightarrow> jsstring \<Rightarrow> jsstring" where
  "remove_first p [] = []"
| "remove_first p (c # cs) =
     (if prefix p (c # cs) then drop (length p) (c # cs) else c # remove_first p cs)"

text \<open>
  The handlers are the caller's callbacks; a call is recorded with its argument. The
  argument of \<open>onToolCall\<close> is the object \<open>{name, args, callId}\<close>, that of
  \<open>onToolOutput\<close> the object \<open>{output, callId}\<close>; \<open>onDone\<close> is called with the parsed
  payload or with no argument. The callbacks are taken not to throw.
\<close>

datatype call =
    OnText jsstring
  | OnToolCall json json "json option"
  | OnToolOutput "jsstring option" "json option"
  | OnReasoning json
  | OnDone "json option"

text \<open>\<open>v || d\<close> and \<open>v || undefined\<close>.\<close>

definition or_default :: "json option \<Rightarrow> json \<Rightarrow> json" where
  "or_default v d = (case v of None \<Rightarrow> d | Some x \<Rightarrow> if truthy (Some x) then x else d)"

definition or_undefined :: "json option \<Rightarrow> json option" where
  "or_undefined v = (if truthy v then v else None)"

text \<open>
  The bodies of the \<open>try\<close> blocks of the events \<open>tool_called\<close>, \<open>tool_output\<close> and
  \<open>reasoning\<close>: the calls made, or the exception thrown before any call. The text
  \<open>JSON.stringify(v, null, 2)\<close> of a value that is not a string is given by the
  parameter \<open>stringify\<close>; of \<open>undefined\<close> it is \<open>undefined\<close>.
\<close>

definition tool_called_try :: "jsstring \<Rightarrow> js_error + call list" where
  "tool_called_try data =
     (case JSON_parse data of
        Inl e \<Rightarrow> Inl e
      | Inr payload \<Rightarrow>
          (case get_prop payload (str ''name'') of
             Inl e \<Rightarrow> Inl e
           | Inr payload_name \<Rightarrow>
               (case get_prop payload (str ''arguments'') of
                  Inl e \<Rightarrow> Inl e
                | Inr payload_arguments \<Rightarrow>
                    (case get_prop payload (str ''call_id'') of
                       Inl e \<Rightarrow> Inl e
                     | Inr payload_call_id \<Rightarrow>
                         Inr [OnToolCall (or_default payload_name (JString (str ''tool'')))
                                (or_default payload_arguments (JString []))
                                (or_undefined payload_call_id)]))))"

definition tool_output_try :: "(json \<Rightarrow> jsstring) \<Rightarrow> jsstring \<Rightarrow> js_error + call list" where
  "tool_output_try stringify data =
     (case JSON_parse data of
        Inl e \<Rightarrow> Inl e
      | Inr payload \<Rightarrow>
          (case get_prop payload (str ''output'') of
             Inl e \<Rightarrow> Inl e
           | Inr out \<Rightarrow>
               (let output = (case out of
                                None \<Rightarrow> None
                              | Some (JString s) \<Rightarrow> Some s
                              | Some v \<Rightarrow> Some (stringify v))
                in case get_prop payload (str ''call_id'') of
                     Inl e \<Rightarrow> Inl e
                   | Inr call_id \<Rightarrow> Inr [OnToolOutput output (or_undefined call_id)])))"

definition reasoning_try :: "jsstring \<Rightarrow> js_error + call list" where
  "reasoning_try data =
     (case JSON_parse data of
        Inl e \<Rightarrow> Inl e
      | Inr payload \<Rightarrow>
          (case get_prop payload (str ''summary'') of
             Inl e \<Rightarrow> Inl e
           | Inr summary \<Rightarrow>
               (case summary of
                  None \<Rightarrow> Inr []
                | Some v \<Rightarrow> Inr (if truthy (Some v) then [OnReasoning v] else []))))"

text \<open>An empty \<open>catch\<close> block: an exception of the body leaves no call.\<close>

definition catch_nothing :: "js_error + call list \<Rightarrow> call list" where
  "catch_nothing r = (case r of Inl e \<Rightarrow> [] | Inr calls \<Rightarrow> calls)"

text \<open>The handler calls of one event with its name and its data.\<close>

definition dispatch :: "(json \<Rightarrow> jsstring) \<Rightarrow> jsstring \<Rightarrow> jsstring \<Rightarrow> call list" where
  "dispatch stringify eventName data =
     (if eventName = str ''done'' then
        (case JSON_parse data of
           Inl e \<Rightarrow> [OnDone None]
         | Inr payload \<Rightarrow> [OnDone (Some payload)])
      else if eventName = str ''tool_called'' then catch_nothing (tool_called_try data)
      else if eventName = str ''tool_output'' then
        catch_nothing (tool_output_try stringify data)
      else if eventName = str ''reasoning'' then catch_nothing (reasoning_try data)
      else [OnText data])"

text \<open>
  The loop over the lines of one part, with the event name and the data lines so far.
\<close>

fun scan_lines :: "jsstring \<Rightarrow> jsstring list \<Rightarrow> jsstring list \<Rightarrow> jsstring \<times> jsstring list" where
  "scan_lines eventName dataLines [] = (eventName, dataLines)"
| "scan_lines eventName dataLines (line # lines) =
     (if startsWith line (str ''event:'')
      then scan_lines (trim (remove_first (str ''event:'') line)) dataLines lines
      else if startsWith line (str ''data:'')
      then scan_lines eventName (dataLines @ [slice_from 5 line]) lines
      else scan_lines eventName dataLines lines)"

definition handle_part :: "(json \<Rightarrow> jsstring) \<Rightarrow> jsstring \<Rightarrow> call list" where
  "handle_part stringify part =
     (case scan_lines (str ''message'') [] (split part (str ''\<newline>'')) of
        (eventName, dataLines) \<Rightarrow>
          if dataLines = [] then []
          else dispatch stringify eventName (join (str ''\<newline>'') dataLines))"

text \<open>
  \<open>parseSseEvents\<close>: the calls made, in order, and the returned rest of the buffer.
  \<open>parts.pop()\<close> takes the last part away; it is \<open>undefined\<close>, replaced by the empty
  string, only on an empty array.
\<close>

definition parseSseEvents :: "(json \<Rightarrow> jsstring) \<Rightarrow> jsstring \<Rightarrow> call list \<times> jsstring" where
  "parseSseEvents stringify buffer =
     (let parts = split buffer (str ''\<newline>\<newline>'');
          remaining = (if parts = [] then [] else last parts)
      in (concat (map (handle_part stringify) (butlast parts)), remaining))"


text \<open>The lines of a part that start with \<open>data:\<close>.\<close>

definition data_lines :: "jsstring \<Rightarrow> jsstring list" where
  "data_lines part =
     filter (\<lambda>line. startsWith line (str ''data:'')) (split part (str ''\<newline>''))"


section \<open>page.tsx: what the fixtures contain\<close>

text \<open>
  The content of the fixture saved under a file name. An attribute assignment of the
  configuration language is a line \<open>key = value\<close>, with any blanks around the key, the
  equals sign and the value. A block is the run of lines after its opening line up to the
  next line that holds only a closing brace.
\<close>

definition fixture_content :: "jsstring \<Rightarrow> jsstring option" where
  "fixture_content file_name =
     map_option test_file.content
       (find (\<lambda>f. test_file.name f = file_name) (map snd TEST_FILES))"

definition assignment :: "jsstring \<Rightarrow> (jsstring \<times> jsstring) option" where
  "assignment line =
     (let t = trim line;
          key = takeWhile (\<lambda>c. c \<noteq> 32 \<and> c \<noteq> cu CHR ''='') t
      in case dropWhile (\<lambda>c. c = 32) (drop (length key) t) of
           [] \<Rightarrow> None
         | c # v \<Rightarrow> if c = cu CHR ''='' \<and> key \<noteq> [] then Some (key, trim v) else None)"

definition assigns :: "jsstring list \<Rightarrow> jsstring \<Rightarrow> jsstring \<Rightarrow> bool" where
  "assigns lines key v = (Some (key, v) \<in> set (map assignment lines))"

definition block_lines :: "jsstring \<Rightarrow> jsstring list \<Rightarrow> jsstring list" where
  "block_lines opening lines =
     takeWhile (\<lambda>l. trim l \<noteq> str ''}'') (drop 1 (dropWhile (\<lambda>l. trim l \<noteq> opening) lines))"

definition fixture_lines :: "jsstring \<Rightarrow> jsstring list" where
  "fixture_lines file_name =
     (case fixture_content file_name of
        None \<Rightarrow> []
      | Some text \<Rightarrow> split text (str ''\<newline>''))"




section \<open>The sandbox: PathGuard, SandboxManager, FileStore, PatchEngine, ScannerOrchestrator\<close>

text \<open>
  The backend is not among the sources: the frontend above only consumes its results.
  The definitions of this section follow sections 3, 4.1 to 4.5, 6 and 7 of the
  specification. The derivation of the diff lines (section 4.4, step 5) is a parameter
  of \<open>apply_patch\<close> below.
\<close>

text \<open>
  Modelled from the spec: a canonical absolute path of the missing PathGuard, as the
  list of its segments from the root of the filesystem.
\<close>

type_synonym path = "jsstring list"

text \<open>
  Modelled from the spec: what the missing PathGuard and FileStore find at a path: a file
  with its content, a directory or a symlink with its target text.
\<close>

datatype node = File jsstring | Directory | Symlink jsstring

text \<open>
  Modelled from the spec: the filesystem of the missing components: its entries in the
  order of their creation, each with its canonical path.
\<close>

type_synonym filesystem = "(path \<times> node) list"

text \<open>Modelled from the spec: what the filesystem of the missing components holds at a path.\<close>

definition node_at :: "filesystem \<Rightarrow> path \<Rightarrow> node option" where
  "node_at fs p = map_of fs p"

text \<open>Modelled from the spec: the error taxonomy of section 7, for the missing components.\<close>

datatype store_error =
    PathEscape
  | UnknownSession
  | NotFound
  | NotAFile
  | PreconditionFailed
  | FilesystemError

text \<open>
  Modelled from the spec: the state that the missing FileStore works on: the filesystem,
  and the temporary files of writes in progress, each beside its target under a name of
  its own.
\<close>

record store =
  files :: filesystem
  temps :: "path \<Rightarrow> jsstring option"

subsection \<open>PathGuard\<close>

text \<open>
  Modelled from the spec: the segments of a path text, for the missing
  \<open>PathGuard.resolve\<close>.
\<close>

definition path_segments :: "jsstring \<Rightarrow> jsstring list" where
  "path_segments p = split p (str ''/'')"

text \<open>
  Modelled from the spec: an "absolute" requested path, which the missing PathGuard
  refuses: it starts at the root of the filesystem.
\<close>

definition is_absolute :: "jsstring \<Rightarrow> bool" where
  "is_absolute p = startsWith p (str ''/'')"





text \<open>
  Modelled from the spec: the canonicalization of the missing PathGuard, "resolving
  \<open>.\<close>/\<open>..\<close> segments and symlinks". \<open>cur\<close> is the canonical path reached, the
  list holds the segments still to walk. A symlink is replaced by its target, walked
  from the root when the target is absolute and from the directory of the link
  otherwise; \<open>fuel\<close> bounds the symlinks followed, and a walk that exceeds it has no
  result.
\<close>

fun canonicalize :: "nat \<Rightarrow> filesystem \<Rightarrow> path \<Rightarrow> jsstring list \<Rightarrow> path option" where
  "canonicalize fuel fs cur [] = Some cur"
| "canonicalize fuel fs cur (seg # rest) =
     (if seg = [] \<or> seg = str ''.'' then canonicalize fuel fs cur rest
      else if seg = str ''..'' then canonicalize fuel fs (butlast cur) rest
      else (case node_at fs (cur @ [seg]) of
              Some (Symlink target) \<Rightarrow>
                (case fuel of
                   0 \<Rightarrow> None
                 | Suc k \<Rightarrow>
                     canonicalize k fs (if is_absolute target then [] else cur)
                       (path_segments target @ rest))
            | _ \<Rightarrow> canonicalize fuel fs (cur @ [seg]) rest))"

text \<open>Modelled from the spec: the bound on the symlinks the missing PathGuard follows.\<close>

definition max_symlinks :: nat where
  "max_symlinks = 40"


text \<open>
  Modelled from the spec: "a descendant of \<open>root\<close>", for the missing PathGuard: the path
  lies below the root.
\<close>

definition descendant :: "path \<Rightarrow> path \<Rightarrow> bool" where
  "descendant root p = strict_prefix root p"

text \<open>
  Modelled from the spec: \<open>PathGuard.resolve\<close>, missing from the sources:
  "\<open>resolve(root, requestedPath) \<rightarrow> absolutePath\<close> fails with \<open>PathEscape\<close> if the
  canonicalized result is not a descendant of \<open>root\<close>, or if \<open>requestedPath\<close> is
  empty/absolute when a relative path is required." A path without a canonical form
  within the bound is refused as well.
\<close>

definition resolve :: "filesystem \<Rightarrow> path \<Rightarrow> jsstring \<Rightarrow> store_error + path" where
  "resolve fs root requestedPath =
     (if requestedPath = [] \<or> is_absolute requestedPath then Inl PathEscape
      else (case canonicalize max_symlinks fs root (path_segments requestedPath) of
              None \<Rightarrow> Inl PathEscape
            | Some p \<Rightarrow> if descendant root p then Inr p else Inl PathEscape))"

subsection \<open>SandboxManager\<close>

text \<open>
  Modelled from the spec: the session identifier of the missing SandboxManager, an
  "opaque token", and its "mapping from session identifier to an isolated directory
  tree".
\<close>

type_synonym session_id = jsstring

type_synonym registry = "(session_id \<times> path) list"

text \<open>
  Modelled from the spec: \<open>create() \<rightarrow> SandboxRoot\<close> of the missing SandboxManager, which
  "allocates a fresh empty directory, one per session, path derived from a
  collision-resistant session identifier". The identifier comes from the generator of
  the manager, never from a request; the directory lies under the base directory of the
  manager.
\<close>

definition create :: "path \<Rightarrow> session_id \<Rightarrow> registry \<Rightarrow> store \<Rightarrow> path \<times> registry \<times> store" where
  "create base sessionId sessions st =
     (let root = base @ [sessionId]
      in (root, AList.update sessionId root sessions,
          st\<lparr>files := AList.update root Directory (files st)\<rparr>))"

text \<open>
  Modelled from the spec: \<open>rootFor(sessionId) \<rightarrow> SandboxRoot\<close> of the missing
  SandboxManager, which "fails with \<open>UnknownSession\<close> if absent".
\<close>

definition rootFor :: "registry \<Rightarrow> session_id \<Rightarrow> store_error + path" where
  "rootFor sessions sessionId =
     (case map_of sessions sessionId of
        None \<Rightarrow> Inl UnknownSession
      | Some root \<Rightarrow> Inr root)"

text \<open>
  Modelled from the spec: \<open>destroy(sessionId)\<close> of the missing SandboxManager, which
  "recursively removes the directory tree, fails silently (logged, not surfaced) if
  already absent".
\<close>

definition destroy :: "session_id \<Rightarrow> registry \<Rightarrow> store \<Rightarrow> registry \<times> store" where
  "destroy sessionId sessions st =
     (case map_of sessions sessionId of
        None \<Rightarrow> (sessions, st)
      | Some root \<Rightarrow>
          (AList.delete sessionId sessions,
           st\<lparr>files := filter (\<lambda>entry. \<not> prefix root (fst entry)) (files st)\<rparr>))"

subsection \<open>FileStore\<close>

text \<open>
  Modelled from the spec: \<open>read(path) \<rightarrow> content\<close> of the missing FileStore, which "fails
  with \<open>NotFound\<close> if absent, \<open>NotAFile\<close> if a directory".
\<close>

definition read_file :: "store \<Rightarrow> path \<Rightarrow> jsstring \<Rightarrow> store_error + jsstring" where
  "read_file st root requestedPath =
     (case resolve (files st) root requestedPath of
        Inl e \<Rightarrow> Inl e
      | Inr p \<Rightarrow>
          (case node_at (files st) p of
             None \<Rightarrow> Inl NotFound
           | Some (File text) \<Rightarrow> Inr text
           | Some other \<Rightarrow> Inl NotAFile))"

text \<open>
  Modelled from the spec: the FileNode of section 3, for the missing FileStore: "name,
  relative path (POSIX-style, root-relative), is-directory flag, ordered children".
\<close>

datatype FileNode =
  FileNode (node_name: jsstring) (relative_path: jsstring) (is_directory: bool)
    (children: "FileNode list")


text \<open>
  Modelled from the spec: the names of the entries of a directory, for the listing of
  the missing FileStore, in the order of their creation.
\<close>

definition child_names :: "filesystem \<Rightarrow> path \<Rightarrow> jsstring list" where
  "child_names fs dir =
     remdups (map (\<lambda>entry. last (fst entry))
                (filter (\<lambda>entry. fst entry \<noteq> [] \<and> butlast (fst entry) = dir) fs))"

text \<open>
  Modelled from the spec: the walk of the missing \<open>list()\<close>, "directories before files"
  within a level, over the directory at the relative path \<open>rel\<close>. A symlink is listed as
  an entry and not followed. \<open>levels\<close> bounds the levels below that directory.
\<close>

fun walk :: "nat \<Rightarrow> filesystem \<Rightarrow> path \<Rightarrow> path \<Rightarrow> FileNode list" where
  "walk 0 fs root rel = []"
| "walk (Suc levels) fs root rel =
     (let names = child_names fs (root @ rel);
          directories = filter (\<lambda>n. node_at fs (root @ rel @ [n]) = Some Directory) names;
          others = filter (\<lambda>n. node_at fs (root @ rel @ [n]) \<noteq> Some Directory) names
      in map (\<lambda>n. FileNode n (join (str ''/'') (rel @ [n])) True
                    (walk levels fs root (rel @ [n]))) directories
         @ map (\<lambda>n. FileNode n (join (str ''/'') (rel @ [n])) False []) others)"

text \<open>
  Modelled from the spec: the length of the longest path of the filesystem, which bounds
  the levels that the missing \<open>list()\<close> can find.
\<close>

definition deepest :: "filesystem \<Rightarrow> nat" where
  "deepest fs = fold (\<lambda>entry d. max (length (fst entry)) d) fs 0"


text \<open>
  Modelled from the spec: the calls that the missing FileStore makes on the filesystem:
  creating a directory, creating the temporary file of a target, writing it, renaming it
  onto the target, and removing an entry.
\<close>

datatype fs_call =
    MakeDir path
  | CreateTemp path
  | WriteTemp path jsstring
  | RenameTemp path
  | RemoveNode path

text \<open>Modelled from the spec: what a call of the missing FileStore does when it succeeds.\<close>

fun perform :: "fs_call \<Rightarrow> store \<Rightarrow> store" where
  "perform (MakeDir q) st = st\<lparr>files := AList.update q Directory (files st)\<rparr>"
| "perform (CreateTemp p) st = st\<lparr>temps := (temps st)(p \<mapsto> [])\<rparr>"
| "perform (WriteTemp p text) st = st\<lparr>temps := (temps st)(p \<mapsto> text)\<rparr>"
| "perform (RenameTemp p) st =
     (case temps st p of
        None \<Rightarrow> st
      | Some text \<Rightarrow>
          st\<lparr>files := AList.update p (File text) (files st), temps := (temps st)(p := None)\<rparr>)"
| "perform (RemoveNode p) st = st\<lparr>files := AList.delete p (files st)\<rparr>"

text \<open>
  Modelled from the spec: what a call of the missing FileStore leaves when it fails: a
  "partial-write" failure leaves the code units written so far in the temporary file,
  any other failing call leaves nothing.
\<close>

fun interrupted :: "nat \<Rightarrow> fs_call \<Rightarrow> store \<Rightarrow> store" where
  "interrupted k (WriteTemp p text) st = st\<lparr>temps := (temps st)(p \<mapsto> take k text)\<rparr>"
| "interrupted k other st = st"

text \<open>
  Modelled from the spec: how the missing FileStore takes a call back when a later call
  of the same operation fails, "leaving prior state intact": a directory it has created
  is removed, and "temp file is removed on error", whatever has been written to it. The
  rename and the removal are the last call of their operation, so that there is nothing
  to take back after them.
\<close>

fun undo :: "fs_call \<Rightarrow> store \<Rightarrow> store" where
  "undo (MakeDir q) st = st\<lparr>files := AList.delete q (files st)\<rparr>"
| "undo (CreateTemp p) st = st\<lparr>temps := (temps st)(p := None)\<rparr>"
| "undo other st = st"

text \<open>
  Modelled from the spec: a filesystem error during an operation of the missing
  FileStore: the call of the operation that fails, counted from 0, and the code units
  that a failing write has written before.
\<close>

datatype fault = Fault (failing_call: nat) (written: nat)

text \<open>
  Modelled from the spec: the calls of one operation of the missing FileStore, made in
  order. \<open>made\<close> holds the calls made so far, the latest first. When a call fails, the
  calls made are taken back, the latest first, and the operation ends with the error.
\<close>

fun transact ::
  "fault option \<Rightarrow> fs_call list \<Rightarrow> fs_call list \<Rightarrow> store \<Rightarrow> (store_error + unit) \<times> store" where
  "transact f made [] st = (Inr (), st)"
| "transact None made (c # calls) st = transact None (c # made) calls (perform c st)"
| "transact (Some (Fault 0 k)) made (c # calls) st =
     (Inl FilesystemError, fold undo made (interrupted k c st))"
| "transact (Some (Fault (Suc n) k)) made (c # calls) st =
     transact (Some (Fault n k)) (c # made) calls (perform c st)"

text \<open>
  Modelled from the spec: "creates parent directories as needed", for the missing
  FileStore: the directories between the root and the target that do not exist, the
  outermost first.
\<close>

definition missing_parents :: "filesystem \<Rightarrow> path \<Rightarrow> path \<Rightarrow> path list" where
  "missing_parents fs root p =
     filter (\<lambda>q. strict_prefix root q \<and> strict_prefix q p \<and> node_at fs q = None) (prefixes p)"

text \<open>
  Modelled from the spec: the calls of a \<open>write\<close> of the missing FileStore, which
  "creates parent directories as needed, writes via a scoped
  temporary-file-then-atomic-rename sequence".
\<close>

definition write_calls :: "filesystem \<Rightarrow> path \<Rightarrow> path \<Rightarrow> jsstring \<Rightarrow> fs_call list" where
  "write_calls fs root p text =
     map MakeDir (missing_parents fs root p) @ [CreateTemp p, WriteTemp p text, RenameTemp p]"

text \<open>
  Modelled from the spec: \<open>write(path, content)\<close> of the missing FileStore, with
  "guaranteed release of the temporary handle on every exit path, including write
  failure". The result is the error or success, and the state left behind.
\<close>

definition write_file ::
  "fault option \<Rightarrow> store \<Rightarrow> path \<Rightarrow> jsstring \<Rightarrow> jsstring \<Rightarrow> (store_error + unit) \<times> store" where
  "write_file f st root requestedPath text =
     (case resolve (files st) root requestedPath of
        Inl e \<Rightarrow> (Inl e, st)
      | Inr p \<Rightarrow> transact f [] (write_calls (files st) root p text) st)"

text \<open>
  Modelled from the spec: \<open>remove(path)\<close> of the missing FileStore, which "fails with
  \<open>NotFound\<close> if absent".
\<close>

definition remove_file ::
  "fault option \<Rightarrow> store \<Rightarrow> path \<Rightarrow> jsstring \<Rightarrow> (store_error + unit) \<times> store" where
  "remove_file f st root requestedPath =
     (case resolve (files st) root requestedPath of
        Inl e \<Rightarrow> (Inl e, st)
      | Inr p \<Rightarrow>
          if node_at (files st) p = None then (Inl NotFound, st)
          else transact f [] [RemoveNode p] st)"

subsection \<open>PatchEngine\<close>

text \<open>
  Modelled from the spec: the PatchOperation of section 3, for the missing PatchEngine:
  the kind, the target relative path and the new content, "absent for delete".
\<close>

datatype PatchOperation =
    CreateFile jsstring jsstring
  | UpdateFile jsstring jsstring
  | DeleteFile jsstring

text \<open>
  Modelled from the spec: the "operation kind" of section 3, for the missing PatchEngine.
\<close>

datatype operation_kind = create_file | update_file | delete_file

text \<open>
  Modelled from the spec: the kind of a PatchOperation of the missing PatchEngine.
\<close>

fun kind :: "PatchOperation \<Rightarrow> operation_kind" where
  "kind (CreateFile p c) = create_file"
| "kind (UpdateFile p c) = update_file"
| "kind (DeleteFile p) = delete_file"

text \<open>
  Modelled from the spec: the "target relative path" of a PatchOperation of the missing
  PatchEngine.
\<close>

fun target :: "PatchOperation \<Rightarrow> jsstring" where
  "target (CreateFile p c) = p"
| "target (UpdateFile p c) = p"
| "target (DeleteFile p) = p"

text \<open>
  Modelled from the spec: the "new content" of step 4 of the missing PatchEngine, the
  "empty string for delete".
\<close>

fun new_text :: "PatchOperation \<Rightarrow> jsstring" where
  "new_text (CreateFile p c) = c"
| "new_text (UpdateFile p c) = c"
| "new_text (DeleteFile p) = []"

text \<open>
  Modelled from the spec: the structured result of the missing \<open>apply_patch\<close>:
  "operation kind, target path, old content, new content, diff line sequence,
  human-readable summary message".
\<close>

record PatchResult =
  operation_type :: operation_kind
  file_path :: jsstring
  old_content :: jsstring
  new_content :: jsstring
  diff_lines :: "DiffLine list"
  message :: jsstring

text \<open>
  Modelled from the spec: the terminal states of the missing PatchEngine's state
  machine, \<open>DiffComputed\<close> with the result and \<open>Rejected\<close> with the error.
\<close>

datatype patch_state = Rejected store_error | DiffComputed PatchResult

text \<open>
  Modelled from the spec: the filesystem calls of step 3 of an operation of the missing
  PatchEngine: those of a write for a create and an update, the removal for a delete.
\<close>

definition patch_calls :: "filesystem \<Rightarrow> path \<Rightarrow> PatchOperation \<Rightarrow> fs_call list" where
  "patch_calls fs root operation =
     (case resolve fs root (target operation) of
        Inl e \<Rightarrow> []
      | Inr p \<Rightarrow>
          if kind operation = delete_file then [RemoveNode p]
          else write_calls fs root p (new_text operation))"

text \<open>
  Modelled from the spec: "any filesystem error during step 3" of the missing
  PatchEngine: the error hits one of the calls of that step.
\<close>

definition fault_hits :: "fault \<Rightarrow> fs_call list \<Rightarrow> bool" where
  "fault_hits f calls = (failing_call f < length calls)"

text \<open>
  Modelled from the spec: the state machine of section 4.4 over one PatchOperation,
  missing from the sources. Step 1 validates the kind against the existence of the
  file, step 2 captures the old content, step 3 applies through FileStore, steps 4 to 6
  build the result. The derivation of the diff lines from the old and the new content
  and the text of the summary message are parameters.
\<close>

definition apply_patch ::
  "fault option \<Rightarrow> (jsstring \<Rightarrow> jsstring \<Rightarrow> DiffLine list) \<Rightarrow> (PatchOperation \<Rightarrow> jsstring)
     \<Rightarrow> store \<Rightarrow> path \<Rightarrow> PatchOperation \<Rightarrow> patch_state \<times> store" where
  "apply_patch f derive summary st root operation =
     (case resolve (files st) root (target operation) of
        Inl e \<Rightarrow> (Rejected e, st)
      | Inr p \<Rightarrow>
          if (node_at (files st) p \<noteq> None) = (kind operation = create_file)
          then (Rejected PreconditionFailed, st)
          else (case (case operation of
                        CreateFile rel c \<Rightarrow> Inr []
                      | other \<Rightarrow> read_file st root (target operation)) of
                  Inl e \<Rightarrow> (Rejected e, st)
                | Inr old \<Rightarrow>
                    (case (case operation of
                             CreateFile rel c \<Rightarrow> write_file f st root rel c
                           | UpdateFile rel c \<Rightarrow> write_file f st root rel c
                           | DeleteFile rel \<Rightarrow> remove_file f st root rel) of
                       (Inl e, st') \<Rightarrow> (Rejected e, st')
                     | (Inr u, st') \<Rightarrow>
                         (DiffComputed
                            \<lparr>operation_type = kind operation,
                             file_path = target operation,
                             old_content = old,
                             new_content = new_text operation,
                             diff_lines = derive old (new_text operation),
                             message = summary operation\<rparr>,
                          st'))))"

subsection \<open>ScannerOrchestrator\<close>

text \<open>
  Modelled from the spec: the severity scale of a Finding of section 3, for the missing
  ScannerOrchestrator.
\<close>

datatype severity = critical | high | medium | low | info








section \<open>Properties of the diff viewer\<close>

subsection \<open>Splitting\<close>

lemma split_from_not_Nil: "split_from sep cur s \<noteq> []"
  by (induction sep cur s rule: split_from.induct) auto

lemma split_not_Nil: "sep \<noteq> [] \<Longrightarrow> split s sep \<noteq> []"
  by (simp add: split_def split_from_not_Nil)

lemma newline_not_Nil: "str ''\<newline>'' \<noteq> []"
  by (simp add: str_def)

lemma numbered_rows_lines: "Placeholder \<notin> set (numbered_rows ls)"
  by (auto simp: numbered_rows_def)

text \<open>
  C10. \<open>s.split("\n")\<close> has at least one element for every string \<open>s\<close>, so the
  placeholder row guarded by \<open>length === 0\<close> is never rendered by a column of the split
  view; the empty content renders as one blank line with number 1.
\<close>

theorem split_view_placeholder_unreachable:
  "1 \<le> length (split s (str ''\<newline>''))
   \<and> Placeholder \<notin> set (split_column s)
   \<and> split_column [] = [Line 1 []]"
proof -
  have ne: "split s (str ''\<newline>'') \<noteq> []"
    by (rule split_not_Nil [OF newline_not_Nil])
  then have len: "1 \<le> length (split s (str ''\<newline>''))"
    by (cases "split s (str ''\<newline>'')") simp_all
  have no: "Placeholder \<notin> set (split_column s)"
    using ne by (simp add: split_column_def Let_def numbered_rows_lines)
  have empty: "split_column [] = [Line 1 []]"
    by (simp add: split_column_def split_def str_def numbered_rows_def)
  show ?thesis using len no empty by blast
qed

subsection \<open>Line numbers\<close>

lemma length_number_lines: "length (number_lines ol nl ls) = length ls"
  by (induction ls arbitrary: ol nl) (auto split: option.splits)

lemma number_lines_append:
  "\<exists>a b. number_lines ol nl (pre @ rest) = number_lines ol nl pre @ number_lines a b rest"
proof (induction pre arbitrary: ol nl)
  case Nil
  show ?case by auto
next
  case (Cons l pre)
  show ?case
    using Cons.IH by (cases "type l") (auto split: option.splits)
qed

lemma number_lines_hunk_here:
  assumes "type h = Hunk"
  shows "\<exists>a b. number_lines ol nl (h # rest)
            = \<lparr>oldLine = None, newLine = None\<rparr> # number_lines a b rest"
  using assms by (auto split: option.splits)

lemma number_lines_nohunk:
  "\<forall>l\<in>set ls. type l \<noteq> Hunk \<Longrightarrow> i < length ls \<Longrightarrow>
   number_lines ol nl ls ! i =
     (case type (ls ! i) of
        Context \<Rightarrow>
          \<lparr>oldLine = Some (ol + old_before ls i + 1),
           newLine = Some (nl + new_before ls i + 1)\<rparr>
      | Add \<Rightarrow> \<lparr>oldLine = None, newLine = Some (nl + new_before ls i + 1)\<rparr>
      | Remove \<Rightarrow> \<lparr>oldLine = Some (ol + old_before ls i + 1), newLine = None\<rparr>
      | Hunk \<Rightarrow> \<lparr>oldLine = None, newLine = None\<rparr>)"
proof (induction ls arbitrary: ol nl i)
  case Nil
  then show ?case by simp
next
  case (Cons l ls)
  show ?case
  proof (cases i)
    case 0
    with Cons.prems show ?thesis
      by (cases "type l") (simp_all add: old_before_def new_before_def)
  next
    case (Suc j)
    with Cons.prems have j: "\<forall>l\<in>set ls. type l \<noteq> Hunk" "j < length ls"
      by simp_all
    note IH = Cons.IH [OF j]
    from Cons.prems have "type l \<noteq> Hunk" by simp
    then show ?thesis using Suc
      by (cases "type l"; cases "type (ls ! j)")
         (simp_all add: IH old_before_def new_before_def)
  qed
qed

text \<open>
  C4. On a diff with no hunk line the numbers are 1-based counts: a context line carries
  one more than the number of old lines (remove or context) before it and one more than
  the number of new lines (add or context) before it, an add line carries only the new
  number, a remove line only the old one; so the first old line and the first new line
  get number 1, and each line advances exactly the counters it carries. A hunk line, in
  any diff, carries no number.
\<close>

theorem computeLineNumbers_one_based:
  assumes "\<forall>l\<in>set ls. type l \<noteq> Hunk" and "i < length ls" and "type h = Hunk"
  shows "length (computeLineNumbers ls) = length ls
    \<and> computeLineNumbers ls ! i = expected_numbers ls i
    \<and> computeLineNumbers (pre @ h # post) ! length pre = \<lparr>oldLine = None, newLine = None\<rparr>"
proof -
  have n: "computeLineNumbers ls ! i = expected_numbers ls i"
    using number_lines_nohunk [OF assms(1,2), of 0 0]
    by (cases "type (ls ! i)") (simp_all add: computeLineNumbers_def expected_numbers_def)
  obtain a b where "number_lines 0 0 (pre @ h # post)
      = number_lines 0 0 pre @ number_lines a b (h # post)"
    using number_lines_append by blast
  moreover obtain a' b' where "number_lines a b (h # post)
      = \<lparr>oldLine = None, newLine = None\<rparr> # number_lines a' b' post"
    using number_lines_hunk_here [OF assms(3)] by blast
  ultimately have h: "computeLineNumbers (pre @ h # post) ! length pre
      = \<lparr>oldLine = None, newLine = None\<rparr>"
    by (simp add: computeLineNumbers_def nth_append length_number_lines
          del: number_lines.simps)
  show ?thesis using n h by (simp add: computeLineNumbers_def length_number_lines)
qed

theorem computeLineNumbers_one_based_witness:
  "list_all (\<lambda>l. type l \<noteq> Hunk)
     [\<lparr>type = Remove, content = str ''a''\<rparr>, \<lparr>type = Context, content = str ''b''\<rparr>,
      \<lparr>type = Add, content = str ''c''\<rparr>, \<lparr>type = Context, content = str ''d''\<rparr>]
   \<and> (3::nat) < length [\<lparr>type = Remove, content = str ''a''\<rparr>,
         \<lparr>type = Context, content = str ''b''\<rparr>, \<lparr>type = Add, content = str ''c''\<rparr>,
         \<lparr>type = Context, content = str ''d''\<rparr>]
   \<and> type \<lparr>type = Hunk, content = str ''...''\<rparr> = Hunk
   \<and> computeLineNumbers [\<lparr>type = Remove, content = str ''a''\<rparr>,
         \<lparr>type = Context, content = str ''b''\<rparr>, \<lparr>type = Add, content = str ''c''\<rparr>,
         \<lparr>type = Context, content = str ''d''\<rparr>] ! 3
       = \<lparr>oldLine = Some 3, newLine = Some 3\<rparr>
   \<and> computeLineNumbers [\<lparr>type = Context, content = str ''a''\<rparr>,
         \<lparr>type = Hunk, content = str ''...''\<rparr>, \<lparr>type = Add, content = str ''c''\<rparr>] ! 1
       = \<lparr>oldLine = None, newLine = None\<rparr>"
  using computeLineNumbers_one_based
    [of "[\<lparr>type = Remove, content = str ''a''\<rparr>, \<lparr>type = Context, content = str ''b''\<rparr>,
          \<lparr>type = Add, content = str ''c''\<rparr>, \<lparr>type = Context, content = str ''d''\<rparr>]"
        3 "\<lparr>type = Hunk, content = str ''...''\<rparr>"
        "[\<lparr>type = Context, content = str ''a''\<rparr>]"
        "[\<lparr>type = Add, content = str ''c''\<rparr>]"]
  by (simp add: expected_numbers_def old_before_def new_before_def)

lemma number_lines_keep_old:
  assumes "\<forall>l\<in>set mid. type l = Add \<or> (type l = Hunk \<and> hunk_header (content l) = None)"
  shows "\<exists>b. number_lines ol nl (mid @ rest)
           = number_lines ol nl mid @ number_lines ol b rest"
  using assms
proof (induction mid arbitrary: nl)
  case Nil
  show ?case by auto
next
  case (Cons l mid)
  then show ?case by (cases "type l") auto
qed

lemma number_lines_keep_new:
  assumes "\<forall>l\<in>set mid. type l = Remove \<or> (type l = Hunk \<and> hunk_header (content l) = None)"
  shows "\<exists>a. number_lines ol nl (mid @ rest)
           = number_lines ol nl mid @ number_lines a nl rest"
  using assms
proof (induction mid arbitrary: ol)
  case Nil
  show ?case by auto
next
  case (Cons l mid)
  then show ?case by (cases "type l") auto
qed

lemma number_lines_after_header:
  assumes "type h = Hunk" and "hunk_header (content h) = Some (oldStart, newStart)"
  shows "computeLineNumbers (pre @ h # mid @ l # post) ! (length pre + 1 + length mid)
       = number_lines (oldStart - 1) (newStart - 1) (mid @ l # post) ! length mid"
proof -
  obtain a b where ab: "number_lines 0 0 (pre @ h # mid @ l # post)
      = number_lines 0 0 pre @ number_lines a b (h # mid @ l # post)"
    using number_lines_append by blast
  have hd: "number_lines a b (h # mid @ l # post)
      = \<lparr>oldLine = None, newLine = None\<rparr>
          # number_lines (oldStart - 1) (newStart - 1) (mid @ l # post)"
    using assms by simp
  have "computeLineNumbers (pre @ h # mid @ l # post) ! (length pre + 1 + length mid)
      = number_lines a b (h # mid @ l # post) ! (1 + length mid)"
    by (simp add: computeLineNumbers_def ab nth_append length_number_lines
          del: number_lines.simps)
  also have "\<dots> = number_lines (oldStart - 1) (newStart - 1) (mid @ l # post) ! length mid"
    by (simp add: hd del: number_lines.simps)
  finally show ?thesis .
qed

lemma digits_then_other:
  assumes "list_all is_digit ds" and "\<not> is_digit c"
  shows "takeWhile is_digit (ds @ c # r) = ds" and "dropWhile is_digit (ds @ c # r) = c # r"
  using assms by (induction ds) simp_all

lemma skip_count_text:
  assumes "count_text oc" and "\<not> is_digit c" and "c \<noteq> 44"
  shows "skip_count (oc @ c # r) = c # r"
proof (cases oc)
  case Nil
  with assms show ?thesis by simp
next
  case (Cons k ds)
  with assms(1) have k: "k = 44" and ds: "ds \<noteq> []" "list_all is_digit ds"
    by (simp_all add: count_text_def decimal_digits_def)
  from ds(1) digits_then_other [OF ds(2) assms(2), of r] show ?thesis
    by (simp add: Cons k)
qed

text \<open>
  A content of the header form is matched at its first code unit, and the two groups
  are its two starts: \<open>hunk_header\<close> gives their decimal values.
\<close>

lemma hunk_header_of_header_text:
  assumes "decimal_digits os" and "count_text oc" and "decimal_digits ns" and "count_text nc"
  shows "hunk_header (header_text os oc ns nc) = Some (parseInt os, parseInt ns)"
proof -
  have sp: "\<not> is_digit 32" "(32::nat) \<noteq> 44" and cm: "\<not> is_digit 44"
    by (simp_all add: is_digit_def)
  from assms have os: "os \<noteq> []" "list_all is_digit os" and ns: "ns \<noteq> []" "list_all is_digit ns"
    by (simp_all add: decimal_digits_def)
  let ?t2 = "32 # 43 # ns @ nc @ str '' @@''"
  let ?t4 = "32 # 64 # [64]"
  have first: "takeWhile is_digit (os @ oc @ ?t2) = os
      \<and> skip_count (dropWhile is_digit (os @ oc @ ?t2)) = ?t2"
  proof (cases oc)
    case Nil
    with digits_then_other [OF os(2) sp(1)] show ?thesis by simp
  next
    case (Cons k ds)
    with assms(2) have "k = 44" by (simp add: count_text_def)
    with Cons digits_then_other [OF os(2) cm, of "ds @ ?t2"]
      skip_count_text [OF assms(2) sp, of "43 # ns @ nc @ str '' @@''"]
    show ?thesis by simp
  qed
  have second: "takeWhile is_digit (ns @ nc @ ?t4) = ns
      \<and> skip_count (dropWhile is_digit (ns @ nc @ ?t4)) = ?t4"
  proof (cases nc)
    case Nil
    with digits_then_other [OF ns(2) sp(1)] show ?thesis by simp
  next
    case (Cons k ds)
    with assms(4) have "k = 44" by (simp add: count_text_def)
    with Cons digits_then_other [OF ns(2) cm, of "ds @ ?t4"]
      skip_count_text [OF assms(4) sp, of "64 # [64]"]
    show ?thesis by simp
  qed
  have "match_here (header_text os oc ns nc) = Some (os, ns)"
    using first second os(1) ns(1)
    by (simp add: match_here_def header_text_def str_def Let_def)
  moreover have "header_text os oc ns nc \<noteq> []"
    by (simp add: header_text_def str_def)
  ultimately have "match_header (header_text os oc ns nc) = Some (os, ns)"
    by (cases "header_text os oc ns nc") simp_all
  then show ?thesis
    by (simp add: hunk_header_def)
qed

text \<open>
  C1, as the code has it. Take a hunk line in whose content the leftmost match of
  \<open>@@ -oldStart[,n] +newStart[,m] @@\<close> has the starts \<open>oldStart\<close> and \<open>newStart\<close>, both at
  most \<open>2 ^ 53\<close> (up to there \<open>parseInt\<close>, the \<open>- 1\<close> and the \<open>++\<close> of the source are
  exact). As long as no other hunk line with a match in its content comes in between,
  the first following remove-or-context line gets the old number \<open>oldStart\<close> and the
  first following add-or-context line gets the new number \<open>newStart\<close>. The lines in
  between are add lines for the old number, remove lines for the new number, and hunk
  lines without a match in both cases. A content that is of the header form is matched
  at its first code unit (\<open>hunk_header_of_header_text\<close>).
\<close>

theorem hunk_header_sets_line_numbers:
  assumes "type h = Hunk" and "hunk_header (content h) = Some (oldStart, newStart)"
    and "\<forall>l\<in>set adds. type l = Add \<or> (type l = Hunk \<and> hunk_header (content l) = None)"
    and "type lo = Remove \<or> type lo = Context"
    and "\<forall>l\<in>set removes.
           type l = Remove \<or> (type l = Hunk \<and> hunk_header (content l) = None)"
    and "type ln = Add \<or> type ln = Context"
    and "oldStart \<le> 2 ^ 53" and "newStart \<le> 2 ^ 53"
  shows "oldLine (computeLineNumbers (pre @ h # adds @ lo # post)
                    ! (length pre + 1 + length adds)) = Some oldStart
       \<and> newLine (computeLineNumbers (pre' @ h # removes @ ln # post')
                    ! (length pre' + 1 + length removes)) = Some newStart"
proof -
  obtain b where "number_lines (oldStart - 1) (newStart - 1) (adds @ lo # post)
      = number_lines (oldStart - 1) (newStart - 1) adds
          @ number_lines (oldStart - 1) b (lo # post)"
    using number_lines_keep_old [OF assms(3)] by blast
  then have old: "oldLine (number_lines (oldStart - 1) (newStart - 1) (adds @ lo # post)
      ! length adds) = Some oldStart"
    using assms(4) by (auto simp: nth_append length_number_lines)
  obtain a where "number_lines (oldStart - 1) (newStart - 1) (removes @ ln # post')
      = number_lines (oldStart - 1) (newStart - 1) removes
          @ number_lines a (newStart - 1) (ln # post')"
    using number_lines_keep_new [OF assms(5)] by blast
  then have new: "newLine (number_lines (oldStart - 1) (newStart - 1) (removes @ ln # post')
      ! length removes) = Some newStart"
    using assms(6) by (auto simp: nth_append length_number_lines)
  show ?thesis
    using old new by (simp only: number_lines_after_header [OF assms(1,2)])
qed

theorem hunk_header_sets_line_numbers_witness:
  "type \<lparr>type = Hunk, content = str ''@@ -5,2 +7,3 @@''\<rparr> = Hunk
   \<and> hunk_header (content \<lparr>type = Hunk, content = str ''@@ -5,2 +7,3 @@''\<rparr>) = Some (5, 7)
   \<and> list_all (\<lambda>l. type l = Add \<or> (type l = Hunk \<and> hunk_header (content l) = None))
         [\<lparr>type = Add, content = str ''x''\<rparr>, \<lparr>type = Hunk, content = str ''...''\<rparr>]
   \<and> (type \<lparr>type = Remove, content = str ''y''\<rparr> = Remove
        \<or> type \<lparr>type = Remove, content = str ''y''\<rparr> = Context)
   \<and> list_all (\<lambda>l. type l = Remove \<or> (type l = Hunk \<and> hunk_header (content l) = None))
         [\<lparr>type = Remove, content = str ''y''\<rparr>]
   \<and> (type \<lparr>type = Add, content = str ''x''\<rparr> = Add
        \<or> type \<lparr>type = Add, content = str ''x''\<rparr> = Context)
   \<and> (5::int) \<le> 2 ^ 53 \<and> (7::int) \<le> 2 ^ 53
   \<and> oldLine (computeLineNumbers
         [\<lparr>type = Context, content = str ''a''\<rparr>,
          \<lparr>type = Hunk, content = str ''@@ -5,2 +7,3 @@''\<rparr>,
          \<lparr>type = Add, content = str ''x''\<rparr>, \<lparr>type = Hunk, content = str ''...''\<rparr>,
          \<lparr>type = Remove, content = str ''y''\<rparr>] ! 4) = Some 5
   \<and> newLine (computeLineNumbers
         [\<lparr>type = Hunk, content = str ''@@ -5,2 +7,3 @@''\<rparr>,
          \<lparr>type = Remove, content = str ''y''\<rparr>,
          \<lparr>type = Add, content = str ''x''\<rparr>] ! 2) = Some 7"
proof -
  have hdr: "hunk_header (content \<lparr>type = Hunk, content = str ''@@ -5,2 +7,3 @@''\<rparr>)
      = Some (5, 7)"
    by code_simp
  have none: "hunk_header (str ''...'') = None"
    by code_simp
  show ?thesis
    using hunk_header_sets_line_numbers
      [of "\<lparr>type = Hunk, content = str ''@@ -5,2 +7,3 @@''\<rparr>" 5 7
          "[\<lparr>type = Add, content = str ''x''\<rparr>, \<lparr>type = Hunk, content = str ''...''\<rparr>]"
          "\<lparr>type = Remove, content = str ''y''\<rparr>"
          "[\<lparr>type = Remove, content = str ''y''\<rparr>]"
          "\<lparr>type = Add, content = str ''x''\<rparr>"
          "[\<lparr>type = Context, content = str ''a''\<rparr>]" "[]" "[]" "[]"]
      hdr none
    by (simp add: eval_nat_numeral)
qed

text \<open>
  C1 as stated fails when a second line with a header comes before the first numbered
  line: the first following context line of the hunk line with \<open>oldStart = 5\<close> and
  \<open>newStart = 5\<close> gets the numbers of the later header.
\<close>

theorem hunk_header_first_following_counterexample:
  "type \<lparr>type = Hunk, content = str ''@@ -5 +5 @@''\<rparr> = Hunk
   \<and> hunk_header (content \<lparr>type = Hunk, content = str ''@@ -5 +5 @@''\<rparr>) = Some (5, 5)
   \<and> computeLineNumbers
         [\<lparr>type = Hunk, content = str ''@@ -5 +5 @@''\<rparr>,
          \<lparr>type = Hunk, content = str ''@@ -10 +10 @@''\<rparr>,
          \<lparr>type = Context, content = str ''x''\<rparr>] ! 2
       = \<lparr>oldLine = Some 10, newLine = Some 10\<rparr>
   \<and> oldLine (computeLineNumbers
         [\<lparr>type = Hunk, content = str ''@@ -5 +5 @@''\<rparr>,
          \<lparr>type = Hunk, content = str ''@@ -10 +10 @@''\<rparr>,
          \<lparr>type = Context, content = str ''x''\<rparr>] ! 2) \<noteq> Some 5"
  by code_simp

section \<open>Properties of isDiffData\<close>

lemma get_prop_string: "get_prop v k = Inr r \<Longrightarrow> is_string r \<Longrightarrow> has_string v k"
  by (cases v) (auto simp: has_string_def is_string_def)

lemma get_prop_array: "get_prop v k = Inr r \<Longrightarrow> is_array r \<Longrightarrow> has_array v k"
  by (cases v) (auto simp: has_array_def is_array_def)

lemma has_string_object: "has_string v k \<Longrightarrow> \<exists>members. v = JObject members"
  by (cases v) (auto simp: has_string_def)

lemma isDiffData_try_accepts:
  assumes "isDiffData_try s = Inr (Some v)"
  shows "JSON_parse s = Inr v \<and> has_string v (str ''message'')
    \<and> has_string v (str ''operation_type'') \<and> has_string v (str ''file_path'')
    \<and> has_array v (str ''diff_lines'')"
proof -
  from assms obtain p where p: "JSON_parse s = Inr p"
    by (cases "JSON_parse s") (simp_all add: isDiffData_try_def)
  from assms p obtain m where m: "get_prop p (str ''message'') = Inr m" "is_string m"
    by (cases "get_prop p (str ''message'')")
       (simp_all add: isDiffData_try_def split: if_splits)
  from assms p m obtain ot
    where ot: "get_prop p (str ''operation_type'') = Inr ot" "is_string ot"
    by (cases "get_prop p (str ''operation_type'')")
       (simp_all add: isDiffData_try_def split: if_splits)
  from assms p m ot obtain fp where fp: "get_prop p (str ''file_path'') = Inr fp" "is_string fp"
    by (cases "get_prop p (str ''file_path'')")
       (simp_all add: isDiffData_try_def split: if_splits)
  from assms p m ot fp obtain dl
    where dl: "get_prop p (str ''diff_lines'') = Inr dl" "is_array dl" and v: "v = p"
    by (cases "get_prop p (str ''diff_lines'')")
       (simp_all add: isDiffData_try_def split: if_splits)
  show ?thesis
    using p v get_prop_string [OF m] get_prop_string [OF ot] get_prop_string [OF fp]
      get_prop_array [OF dl]
    by simp
qed

lemma isDiffData_cases:
  "isDiffData s = Inr None \<or> (\<exists>v. isDiffData s = Inr (Some v) \<and> isDiffData_try s = Inr (Some v))"
  by (simp add: isDiffData_def split: sum.splits option.splits)

lemma isDiffData_try_of_accept:
  "isDiffData s = Inr (Some v) \<Longrightarrow> isDiffData_try s = Inr (Some v)"
  by (simp add: isDiffData_def split: sum.splits option.splits)

text \<open>
  C5, as the code has it. A string that \<open>isDiffData\<close> accepts is JSON text; the value
  returned is the parsed value, an object with string members \<open>message\<close>,
  \<open>operation_type\<close> and \<open>file_path\<close> and an array member \<open>diff_lines\<close>. Nothing is
  checked about \<open>old_content\<close>, \<open>new_content\<close> or the elements of \<open>diff_lines\<close>.
\<close>

theorem isDiffData_accepts_checked_shape:
  assumes "isDiffData s = Inr (Some v)"
  shows "JSON_parse s = Inr v \<and> has_string v (str ''message'')
    \<and> has_string v (str ''operation_type'') \<and> has_string v (str ''file_path'')
    \<and> has_array v (str ''diff_lines'')"
  using isDiffData_try_accepts [OF isDiffData_try_of_accept [OF assms]] .

theorem isDiffData_accepts_checked_shape_witness:
  "isDiffData (str ''{\"message\":\"Updated main.tf\",\"operation_type\":\"update_file\",\"file_path\":\"main.tf\",\"diff_lines\":[{\"type\":\"add\",\"content\":\"x\"}],\"old_content\":\"\",\"new_content\":\"x\"}'')
     = Inr (Some (JObject
         [(str ''message'', JString (str ''Updated main.tf'')),
          (str ''operation_type'', JString (str ''update_file'')),
          (str ''file_path'', JString (str ''main.tf'')),
          (str ''diff_lines'',
             JArray [JObject [(str ''type'', JString (str ''add'')),
                              (str ''content'', JString (str ''x''))]]),
          (str ''old_content'', JString []),
          (str ''new_content'', JString (str ''x''))]))
   \<and> has_array (JObject
         [(str ''message'', JString (str ''Updated main.tf'')),
          (str ''operation_type'', JString (str ''update_file'')),
          (str ''file_path'', JString (str ''main.tf'')),
          (str ''diff_lines'',
             JArray [JObject [(str ''type'', JString (str ''add'')),
                              (str ''content'', JString (str ''x''))]]),
          (str ''old_content'', JString []),
          (str ''new_content'', JString (str ''x''))]) (str ''diff_lines'')"
proof -
  have a: "isDiffData (str ''{\"message\":\"Updated main.tf\",\"operation_type\":\"update_file\",\"file_path\":\"main.tf\",\"diff_lines\":[{\"type\":\"add\",\"content\":\"x\"}],\"old_content\":\"\",\"new_content\":\"x\"}'')
     = Inr (Some (JObject
         [(str ''message'', JString (str ''Updated main.tf'')),
          (str ''operation_type'', JString (str ''update_file'')),
          (str ''file_path'', JString (str ''main.tf'')),
          (str ''diff_lines'',
             JArray [JObject [(str ''type'', JString (str ''add'')),
                              (str ''content'', JString (str ''x''))]]),
          (str ''old_content'', JString []),
          (str ''new_content'', JString (str ''x''))]))"
    by code_simp
  show ?thesis
    using a isDiffData_accepts_checked_shape [OF a] by simp
qed

text \<open>
  C5 as stated fails: the text below has no \<open>old_content\<close> and no \<open>new_content\<close>, and
  its one diff line has an unknown type and no content, yet \<open>isDiffData\<close> returns the
  parsed object.
\<close>

theorem isDiffData_incomplete_shape_counterexample:
  "isDiffData (str ''{\"message\":\"ok\",\"operation_type\":\"update_file\",\"file_path\":\"main.tf\",\"diff_lines\":[{\"type\":\"bogus\"}]}'')
     = Inr (Some (JObject
         [(str ''message'', JString (str ''ok'')),
          (str ''operation_type'', JString (str ''update_file'')),
          (str ''file_path'', JString (str ''main.tf'')),
          (str ''diff_lines'', JArray [JObject [(str ''type'', JString (str ''bogus''))]])]))
   \<and> \<not> complete_shape (JObject
         [(str ''message'', JString (str ''ok'')),
          (str ''operation_type'', JString (str ''update_file'')),
          (str ''file_path'', JString (str ''main.tf'')),
          (str ''diff_lines'', JArray [JObject [(str ''type'', JString (str ''bogus''))]])])
   \<and> \<not> has_string (JObject
         [(str ''message'', JString (str ''ok'')),
          (str ''operation_type'', JString (str ''update_file'')),
          (str ''file_path'', JString (str ''main.tf'')),
          (str ''diff_lines'', JArray [JObject [(str ''type'', JString (str ''bogus''))]])])
        (str ''old_content'')"
  by code_simp

text \<open>
  C8. \<open>isDiffData\<close> never throws: it returns \<open>null\<close> or an object. It returns \<open>null\<close> on
  a text that \<open>JSON.parse\<close> rejects, and on a text whose value lacks a string
  \<open>message\<close>, a string \<open>operation_type\<close>, a string \<open>file_path\<close> or an array
  \<open>diff_lines\<close>.
\<close>

theorem isDiffData_total:
  assumes "JSON_parse s1 = Inl e"
    and "JSON_parse s2 = Inr v"
    and "\<not> has_string v (str ''message'') \<or> \<not> has_string v (str ''operation_type'')
         \<or> \<not> has_string v (str ''file_path'') \<or> \<not> has_array v (str ''diff_lines'')"
  shows "(isDiffData s = Inr None \<or> (\<exists>members. isDiffData s = Inr (Some (JObject members))))
    \<and> isDiffData s1 = Inr None
    \<and> isDiffData s2 = Inr None"
proof -
  have total: "isDiffData s = Inr None \<or> (\<exists>members. isDiffData s = Inr (Some (JObject members)))"
    using isDiffData_cases [of s] isDiffData_try_accepts [of s] has_string_object
    by metis
  have rejected: "isDiffData s1 = Inr None"
    using assms(1) by (simp add: isDiffData_def isDiffData_try_def)
  have lacking: "isDiffData s2 = Inr None"
  proof (rule ccontr)
    assume "isDiffData s2 \<noteq> Inr None"
    then obtain w where "isDiffData_try s2 = Inr (Some w)"
      using isDiffData_cases [of s2] by auto
    from isDiffData_try_accepts [OF this] assms(2,3) show False by auto
  qed
  show ?thesis using total rejected lacking by blast
qed

theorem isDiffData_total_witness:
  "JSON_parse (str ''{\"message\": broken'') = Inl SyntaxError
   \<and> JSON_parse (str ''{\"message\":1,\"diff_lines\":[]}'')
       = Inr (JObject [(str ''message'', JNumber (str ''1'')), (str ''diff_lines'', JArray [])])
   \<and> \<not> has_string (JObject [(str ''message'', JNumber (str ''1'')), (str ''diff_lines'', JArray [])])
         (str ''message'')
   \<and> isDiffData (str ''{\"message\": broken'') = Inr None
   \<and> isDiffData (str ''{\"message\":1,\"diff_lines\":[]}'') = Inr None
   \<and> isDiffData (str ''null'') = Inr None"
proof -
  have a: "JSON_parse (str ''{\"message\": broken'') = Inl SyntaxError"
    by code_simp
  have b: "JSON_parse (str ''{\"message\":1,\"diff_lines\":[]}'')
      = Inr (JObject [(str ''message'', JNumber (str ''1'')), (str ''diff_lines'', JArray [])])"
    by code_simp
  have c: "\<not> has_string
      (JObject [(str ''message'', JNumber (str ''1'')), (str ''diff_lines'', JArray [])])
      (str ''message'')"
    by code_simp
  have d: "isDiffData (str ''null'') = Inr None"
    by code_simp
  from c have c': "\<not> has_string
        (JObject [(str ''message'', JNumber (str ''1'')), (str ''diff_lines'', JArray [])])
        (str ''message'')
      \<or> \<not> has_string
        (JObject [(str ''message'', JNumber (str ''1'')), (str ''diff_lines'', JArray [])])
        (str ''operation_type'')
      \<or> \<not> has_string
        (JObject [(str ''message'', JNumber (str ''1'')), (str ''diff_lines'', JArray [])])
        (str ''file_path'')
      \<or> \<not> has_array
        (JObject [(str ''message'', JNumber (str ''1'')), (str ''diff_lines'', JArray [])])
        (str ''diff_lines'')"
    by blast
  show ?thesis
    using a b c d isDiffData_total [OF a b c', of "str ''null''"] by blast
qed

section \<open>Properties of parseSseEvents\<close>

lemma join_Cons: "join sep (x # xs) = (if xs = [] then x else x @ sep @ join sep xs)"
  by (cases xs) simp_all

lemma join_split_from: "join sep (split_from sep cur s) = cur @ s"
proof (induction sep cur s rule: split_from.induct)
  case (1 sep cur)
  show ?case by simp
next
  case (2 sep cur c cs)
  show ?case
  proof (cases "sep \<noteq> [] \<and> prefix sep (c # cs)")
    case True
    then have "sep @ drop (length sep) (c # cs) = c # cs"
      by (metis append_eq_conv_conj prefixE)
    with True 2 show ?thesis
      by (simp add: join_Cons split_from_not_Nil del: drop.simps)
  next
    case False
    with 2 show ?thesis by auto
  qed
qed

lemma join_split: "sep \<noteq> [] \<Longrightarrow> join sep (split s sep) = s"
  by (simp add: split_def join_split_from)

lemma split_from_no_delimiter: "\<not> sublist sep s \<Longrightarrow> split_from sep cur s = [cur @ s]"
proof (induction sep cur s rule: split_from.induct)
  case (1 sep cur)
  show ?case by simp
next
  case (2 sep cur c cs)
  from "2.prems" have "\<not> prefix sep (c # cs)" "\<not> sublist sep cs"
    by (simp_all add: sublist_Cons_right)
  with 2 show ?case by simp
qed

lemma event_line_not_data:
  "startsWith line (str ''event:'') \<Longrightarrow> \<not> startsWith line (str ''data:'')"
  by (cases line) (auto simp: startsWith_def str_def)

lemma scan_lines_data:
  "snd (scan_lines ev ds ls)
     = ds @ map (slice_from 5) (filter (\<lambda>line. startsWith line (str ''data:'')) ls)"
  by (induction ls arbitrary: ev ds) (auto simp: event_line_not_data)

lemma scan_lines_event:
  "\<forall>line\<in>set ls. \<not> startsWith line (str ''event:'') \<Longrightarrow> fst (scan_lines ev ds ls) = ev"
  by (induction ls arbitrary: ev ds) auto

lemma handle_part_unfold:
  "handle_part f part =
     (if data_lines part = [] then []
      else dispatch f (fst (scan_lines (str ''message'') [] (split part (str ''\<newline>''))))
             (join (str ''\<newline>'') (map (slice_from 5) (data_lines part))))"
proof -
  obtain ev ds where e: "scan_lines (str ''message'') [] (split part (str ''\<newline>'')) = (ev, ds)"
    by (cases "scan_lines (str ''message'') [] (split part (str ''\<newline>''))")
  have "ds = map (slice_from 5) (data_lines part)"
    using scan_lines_data [of "str ''message''" "[]" "split part (str ''\<newline>'')"] e
    by (simp add: data_lines_def)
  then show ?thesis
    by (simp add: handle_part_def e)
qed

lemma map_slice_from: "map (slice_from n) xs = map (drop n) xs"
  by (simp add: slice_from_def)

lemma delimiter_not_Nil: "str ''\<newline>\<newline>'' \<noteq> []"
  by (simp add: str_def)

lemma message_is_text: "dispatch f (str ''message'') data = [OnText data]"
  by (simp add: dispatch_def str_def)

text \<open>
  C9. The parts of a buffer are the segments between the occurrences of the delimiter,
  so joining them with the delimiter gives the buffer back. \<open>parseSseEvents\<close> calls
  handlers for the parts before the last one only, in order, and returns the last part;
  a buffer without the delimiter is returned whole and no handler is called. A part
  without a line starting with \<open>data:\<close> calls no handler. The data of a part is the text
  of its \<open>data:\<close> lines after the first five code units, joined by line feeds; with no
  \<open>event:\<close> line it is passed to \<open>onText\<close> as it is.
\<close>

theorem parseSseEvents_complete_events:
  assumes "\<not> sublist (str ''\<newline>\<newline>'') b0"
    and "data_lines p0 = []"
    and "\<forall>line\<in>set (split p1 (str ''\<newline>'')). \<not> startsWith line (str ''event:'')"
    and "data_lines p1 \<noteq> []"
  shows "parseSseEvents f b
      = (concat (map (handle_part f) (butlast (split b (str ''\<newline>\<newline>'')))),
         last (split b (str ''\<newline>\<newline>'')))
    \<and> join (str ''\<newline>\<newline>'') (split b (str ''\<newline>\<newline>'')) = b
    \<and> parseSseEvents f b0 = ([], b0)
    \<and> handle_part f p0 = []
    \<and> handle_part f p1 = [OnText (join (str ''\<newline>'') (map (drop 5) (data_lines p1)))]"
proof -
  have parts: "split b (str ''\<newline>\<newline>'') \<noteq> []" for b
    by (rule split_not_Nil [OF delimiter_not_Nil])
  have 1: "parseSseEvents f b
      = (concat (map (handle_part f) (butlast (split b (str ''\<newline>\<newline>'')))),
         last (split b (str ''\<newline>\<newline>'')))"
    by (simp add: parseSseEvents_def Let_def parts)
  have 2: "join (str ''\<newline>\<newline>'') (split b (str ''\<newline>\<newline>'')) = b"
    by (rule join_split [OF delimiter_not_Nil])
  have "split b0 (str ''\<newline>\<newline>'') = [b0]"
    using split_from_no_delimiter [OF assms(1), of "[]"] delimiter_not_Nil
    by (simp add: split_def)
  then have 3: "parseSseEvents f b0 = ([], b0)"
    by (simp add: parseSseEvents_def Let_def)
  have 4: "handle_part f p0 = []"
    using assms(2) by (simp add: handle_part_unfold)
  have "fst (scan_lines (str ''message'') [] (split p1 (str ''\<newline>''))) = str ''message''"
    by (rule scan_lines_event [OF assms(3)])
  then have 5: "handle_part f p1
      = [OnText (join (str ''\<newline>'') (map (drop 5) (data_lines p1)))]"
    using assms(4) by (simp add: handle_part_unfold message_is_text map_slice_from)
  show ?thesis using 1 2 3 4 5 by blast
qed

theorem parseSseEvents_complete_events_witness:
  "\<not> sublist (str ''\<newline>\<newline>'') (str ''data: partial\<newline>da'')
   \<and> data_lines (str ''event: done\<newline>: keep-alive'') = []
   \<and> list_all (\<lambda>line. \<not> startsWith line (str ''event:''))
        (split (str ''data: hello\<newline>id: 7\<newline>data:world'') (str ''\<newline>''))
   \<and> data_lines (str ''data: hello\<newline>id: 7\<newline>data:world'') \<noteq> []
   \<and> parseSseEvents (\<lambda>v. []) (str ''data: hello\<newline>\<newline>event: done\<newline>\<newline>data: rest'')
       = ([OnText (str '' hello'')], str ''data: rest'')
   \<and> parseSseEvents (\<lambda>v. []) (str ''data: partial\<newline>da'') = ([], str ''data: partial\<newline>da'')
   \<and> handle_part (\<lambda>v. []) (str ''event: done\<newline>: keep-alive'') = []
   \<and> handle_part (\<lambda>v. []) (str ''data: hello\<newline>id: 7\<newline>data:world'')
       = [OnText (str '' hello\<newline>world'')]"
proof -
  have a: "\<not> sublist (str ''\<newline>\<newline>'') (str ''data: partial\<newline>da'')"
    by (simp add: str_def sublist_Cons_right)
  have b: "data_lines (str ''event: done\<newline>: keep-alive'') = []"
    by code_simp
  have c: "\<forall>line\<in>set (split (str ''data: hello\<newline>id: 7\<newline>data:world'') (str ''\<newline>'')).
      \<not> startsWith line (str ''event:'')"
    by code_simp
  have d: "data_lines (str ''data: hello\<newline>id: 7\<newline>data:world'')
      = [str ''data: hello'', str ''data:world'']"
    by code_simp
  then have d': "data_lines (str ''data: hello\<newline>id: 7\<newline>data:world'') \<noteq> []"
    by simp
  have e: "split (str ''data: hello\<newline>\<newline>event: done\<newline>\<newline>data: rest'') (str ''\<newline>\<newline>'')
      = [str ''data: hello'', str ''event: done'', str ''data: rest'']"
    by code_simp
  have g: "handle_part f (str ''data: hello'') = [OnText (str '' hello'')]" for f
    by (simp add: handle_part_def split_def str_def startsWith_def slice_from_def
          dispatch_def)
  have h: "handle_part f (str ''event: done'') = []" for f
    by (simp add: handle_part_def split_def str_def startsWith_def)
  note w = parseSseEvents_complete_events [OF a b c d', of "\<lambda>v. []"
      "str ''data: hello\<newline>\<newline>event: done\<newline>\<newline>data: rest''"]
  have i: "join (str ''\<newline>'') (map (drop 5) [str ''data: hello'', str ''data:world''])
      = str '' hello\<newline>world''"
    by code_simp
  show ?thesis
    using a b c d' w by (simp add: e g h d i list_all_iff) (simp add: str_def)
qed

section \<open>Properties of the test fixtures\<close>

lemma fixture_names:
  "map (\<lambda>(key, f). (key, test_file.name f)) TEST_FILES
     = [(''s3'', str ''s3_bucket.tf''), (''sg'', str ''security_group.tf''),
        (''rds'', str ''rds.tf'')]"
  by (simp add: TEST_FILES_def)

lemma s3_assigns_acl:
  "assigns (fixture_lines (str ''s3_bucket.tf'')) (str ''acl'') (str ''\"public-read\"'')"
  by (simp add: assigns_def fixture_lines_def fixture_content_def TEST_FILES_def split_def
        str_def assignment_def trim_def is_js_space_def cu_def Let_def)

lemma sg_ingress_block:
  "block_lines (str ''ingress {'') (fixture_lines (str ''security_group.tf''))
     = [str ''    description = \"SSH from anywhere\"'',
        str ''    from_port   = 22'',
        str ''    to_port     = 22'',
        str ''    protocol    = \"tcp\"'',
        str ''    cidr_blocks = [\"0.0.0.0/0\"]'']"
  by (simp add: block_lines_def fixture_lines_def fixture_content_def TEST_FILES_def split_def
        str_def trim_def is_js_space_def)

lemma ingress_assignments:
  "map assignment
     [str ''    description = \"SSH from anywhere\"'',
      str ''    from_port   = 22'',
      str ''    to_port     = 22'',
      str ''    protocol    = \"tcp\"'',
      str ''    cidr_blocks = [\"0.0.0.0/0\"]'']
   = [Some (str ''description'', str ''\"SSH from anywhere\"''),
      Some (str ''from_port'', str ''22''),
      Some (str ''to_port'', str ''22''),
      Some (str ''protocol'', str ''\"tcp\"''),
      Some (str ''cidr_blocks'', str ''[\"0.0.0.0/0\"]'')]"
  by (simp add: str_def assignment_def trim_def is_js_space_def cu_def Let_def)

lemma rds_assigns_password:
  "assigns (fixture_lines (str ''rds.tf'')) (str ''password'') (str ''\"password123\"'')"
  by (simp add: assigns_def fixture_lines_def fixture_content_def TEST_FILES_def split_def
        str_def assignment_def trim_def is_js_space_def cu_def Let_def)

text \<open>
  The source aligns the equals signs of a block: the text of the assignment with single
  blanks, \<open>acl = "public-read"\<close>, is not part of the fixture as it stands.
\<close>

lemma s3_acl_is_aligned:
  "list_all (\<lambda>line. \<not> sublist (str ''acl = \"public-read\"'') line)
     (fixture_lines (str ''s3_bucket.tf''))
   \<and> str ''  acl    = \"public-read\"'' \<in> set (fixture_lines (str ''s3_bucket.tf''))"
  by (simp add: fixture_lines_def fixture_content_def TEST_FILES_def split_def str_def
        sublist_Cons_right)

text \<open>
  C7. The fixture saved as \<open>s3_bucket.tf\<close> assigns \<open>"public-read"\<close> to \<open>acl\<close>; the
  \<open>ingress\<close> block of \<open>security_group.tf\<close> assigns 22 to \<open>from_port\<close> and to
  \<open>to_port\<close> and \<open>["0.0.0.0/0"]\<close> to \<open>cidr_blocks\<close>; \<open>rds.tf\<close> assigns the quoted
  literal \<open>"password123"\<close> to \<open>password\<close>.
\<close>

theorem test_fixtures_realize_scenarios:
  "map (\<lambda>(key, f). (key, test_file.name f)) TEST_FILES
     = [(''s3'', str ''s3_bucket.tf''), (''sg'', str ''security_group.tf''),
        (''rds'', str ''rds.tf'')]
   \<and> assigns (fixture_lines (str ''s3_bucket.tf'')) (str ''acl'') (str ''\"public-read\"'')
   \<and> assigns (block_lines (str ''ingress {'') (fixture_lines (str ''security_group.tf'')))
         (str ''from_port'') (str ''22'')
   \<and> assigns (block_lines (str ''ingress {'') (fixture_lines (str ''security_group.tf'')))
         (str ''to_port'') (str ''22'')
   \<and> assigns (block_lines (str ''ingress {'') (fixture_lines (str ''security_group.tf'')))
         (str ''cidr_blocks'') (str ''[\"0.0.0.0/0\"]'')
   \<and> assigns (fixture_lines (str ''rds.tf'')) (str ''password'') (str ''\"password123\"'')"
proof -
  have "assigns (block_lines (str ''ingress {'') (fixture_lines (str ''security_group.tf''))) k v"
    if "Some (k, v) \<in> set [Some (str ''description'', str ''\"SSH from anywhere\"''),
      Some (str ''from_port'', str ''22''),
      Some (str ''to_port'', str ''22''),
      Some (str ''protocol'', str ''\"tcp\"''),
      Some (str ''cidr_blocks'', str ''[\"0.0.0.0/0\"]'')]" for k v
    using that unfolding assigns_def sg_ingress_block ingress_assignments .
  then show ?thesis
    using fixture_names s3_assigns_acl rds_assigns_password by simp
qed

section \<open>Properties of FileStore\<close>

lemma node_at_update: "node_at (AList.update k v fs) q = (if q = k then Some v else node_at fs q)"
  by (simp add: node_at_def update_conv')

lemma node_at_delete: "node_at (AList.delete k fs) q = (if q = k then None else node_at fs q)"
  by (simp add: node_at_def delete_conv')

lemma node_at_None_iff: "node_at fs q = None \<longleftrightarrow> q \<notin> fst ` set fs"
  by (simp add: node_at_def map_of_eq_None_iff)

lemma node_at_filter:
  "node_at (filter (\<lambda>entry. P (fst entry)) fs) q = (if P q then node_at fs q else None)"
  by (induction fs) (auto simp: node_at_def)

subsection \<open>The calls of an operation and their undoing\<close>

lemma undo_MakeDir:
  assumes "node_at (files st) q = None"
  shows "undo (MakeDir q) (perform (MakeDir q) st) = st"
proof -
  from assms have "q \<notin> fst ` set (files st)"
    by (simp add: node_at_None_iff)
  then have "AList.delete q (AList.update q Directory (files st)) = files st"
    by (simp add: delete_update_same)
  then show ?thesis by simp
qed

lemma files_make_dirs:
  "files (fold (\<lambda>q. perform (MakeDir q)) ds st) = fold (\<lambda>q. AList.update q Directory) ds (files st)"
  by (induction ds arbitrary: st) simp_all

lemma temps_make_dirs: "temps (fold (\<lambda>q. perform (MakeDir q)) ds st) = temps st"
  by (induction ds arbitrary: st) simp_all

lemma node_at_make_dirs:
  "node_at (fold (\<lambda>q. AList.update q Directory) ds fs) q
     = (if q \<in> set ds then Some Directory else node_at fs q)"
  by (induction ds arbitrary: fs) (auto simp: node_at_update)

text \<open>
  The directories that a write creates are created one after the other; when the error
  hits one of these calls, the directories created before are removed again and the
  state is the one before the write.
\<close>

lemma transact_dirs:
  assumes "\<forall>q\<in>set ds. node_at (files st) q = None" and "distinct ds"
  shows "transact f made (map MakeDir ds @ calls) st =
     (case f of
        None \<Rightarrow>
          transact None (rev (map MakeDir ds) @ made) calls (fold (\<lambda>q. perform (MakeDir q)) ds st)
      | Some x \<Rightarrow>
          if failing_call x < length ds then (Inl FilesystemError, fold undo made st)
          else transact (Some (Fault (failing_call x - length ds) (written x)))
                 (rev (map MakeDir ds) @ made) calls (fold (\<lambda>q. perform (MakeDir q)) ds st))"
  using assms
proof (induction ds arbitrary: st made f)
  case Nil
  show ?case by (simp split: option.splits)
next
  case (Cons d ds)
  from Cons.prems have absent: "node_at (files st) d = None"
    and rest: "\<forall>q\<in>set ds. node_at (files (perform (MakeDir d) st)) q = None" "distinct ds"
    by (auto simp: node_at_update)
  show ?case
  proof (cases f)
    case None
    with Cons.IH [OF rest, of None "MakeDir d # made"] show ?thesis by simp
  next
    case (Some x)
    obtain n k where x: "x = Fault n k" by (cases x)
    show ?thesis
    proof (cases n)
      case 0
      with Some x show ?thesis by simp
    next
      case (Suc m)
      with Some x Cons.IH [OF rest, of "Some (Fault m k)" "MakeDir d # made"]
        undo_MakeDir [OF absent]
      show ?thesis by simp
    qed
  qed
qed

lemma dirs_undone:
  assumes "\<forall>q\<in>set ds. node_at (files st) q = None" and "distinct ds"
  shows "fold undo (rev (map MakeDir ds)) ((fold (\<lambda>q. perform (MakeDir q)) ds st)\<lparr>temps := T\<rparr>)
      = st\<lparr>temps := T\<rparr>"
  using assms
proof (induction ds arbitrary: st)
  case Nil
  show ?case by simp
next
  case (Cons d ds)
  from Cons.prems have absent: "node_at (files st) d = None"
    and rest: "\<forall>q\<in>set ds. node_at (files (perform (MakeDir d) st)) q = None" "distinct ds"
    by (auto simp: node_at_update)
  from absent have "d \<notin> fst ` set (files st)"
    by (simp add: node_at_None_iff)
  then have "AList.delete d (AList.update d Directory (files st)) = files st"
    by (simp add: delete_update_same)
  then have "undo (MakeDir d) ((perform (MakeDir d) st)\<lparr>temps := T\<rparr>) = st\<lparr>temps := T\<rparr>"
    by simp
  with Cons.IH [OF rest] show ?case by simp
qed

lemma missing_parents_absent: "\<forall>q\<in>set (missing_parents fs root p). node_at fs q = None"
  by (auto simp: missing_parents_def)

lemma missing_parents_distinct: "distinct (missing_parents fs root p)"
  unfolding missing_parents_def by (rule distinct_filter) (rule distinct_prefixes)


subsection \<open>write and remove\<close>

text \<open>
  A write whose path is accepted ends in one of two ways. When the error hits one of its
  calls it fails, and the state is the one before the write, the temporary file of the
  target removed. Otherwise it succeeds: the target holds the new content, the missing
  parents are directories, and no temporary file is left.
\<close>

lemma write_file_result:
  assumes "resolve (files st) root r = Inr p"
  shows "write_file f st root r text =
     (if (case f of None \<Rightarrow> False | Some x \<Rightarrow> fault_hits x (write_calls (files st) root p text))
      then (Inl FilesystemError,
            if failing_call (the f) \<le> length (missing_parents (files st) root p) then st
            else st\<lparr>temps := (temps st)(p := None)\<rparr>)
      else (Inr (),
            st\<lparr>files := AList.update p (File text)
                        (fold (\<lambda>q. AList.update q Directory)
                           (missing_parents (files st) root p) (files st)),
               temps := (temps st)(p := None)\<rparr>))"
proof -
  let ?ds = "missing_parents (files st) root p"
  let ?st1 = "fold (\<lambda>q. perform (MakeDir q)) ?ds st"
  let ?made = "rev (map MakeDir ?ds)"
  let ?tail = "[CreateTemp p, WriteTemp p text, RenameTemp p]"
  have dirs: "transact g [] (write_calls (files st) root p text) st =
     (case g of
        None \<Rightarrow> transact None ?made ?tail ?st1
      | Some x \<Rightarrow>
          if failing_call x < length ?ds then (Inl FilesystemError, st)
          else transact (Some (Fault (failing_call x - length ?ds) (written x))) ?made ?tail ?st1)"
    for g
    using transact_dirs [where ds = ?ds and st = st and f = g and made = "[]" and calls = ?tail]
      missing_parents_absent [of "files st" root p] missing_parents_distinct [of "files st" root p]
    by (simp add: write_calls_def split: option.splits)
  have restores: "fold undo ?made (?st1\<lparr>temps := T\<rparr>) = st\<lparr>temps := T\<rparr>" for T
    by (rule dirs_undone [OF missing_parents_absent missing_parents_distinct])
  have restored: "fold undo ?made ?st1 = st"
  proof -
    have "?st1\<lparr>temps := temps st\<rparr> = ?st1"
      by (rule store.equality) (simp_all add: temps_make_dirs)
    with restores [of "temps st"] show ?thesis by simp
  qed
  have ok: "perform (RenameTemp p) (perform (WriteTemp p text) (perform (CreateTemp p) ?st1))
      = st\<lparr>files := AList.update p (File text)
                        (fold (\<lambda>q. AList.update q Directory) ?ds (files st)),
             temps := (temps st)(p := None)\<rparr>"
    by (rule store.equality) (simp_all add: files_make_dirs temps_make_dirs)
  show ?thesis
  proof (cases f)
    case None
    with assms dirs [of None] ok show ?thesis
      by (simp add: write_file_def write_calls_def)
  next
    case (Some x)
    obtain n k where x: "x = Fault n k" by (cases x)
    consider (in_dirs) "n < length ?ds" | (at_create) "n = length ?ds" | (at_write) "n = length ?ds + 1"
      | (at_rename) "n = length ?ds + 2" | (past) "n \<ge> length ?ds + 3"
      by linarith
    then show ?thesis
    proof cases
      case in_dirs
      with in_dirs assms Some x dirs [of "Some x"] show ?thesis
        by (simp add: write_file_def write_calls_def fault_hits_def)
    next
      case at_create
      with at_create assms Some x dirs [of "Some x"] restored show ?thesis
        by (simp add: write_file_def write_calls_def fault_hits_def)
    next
      case at_write
      with at_write assms Some x dirs [of "Some x"] restores [of "(temps st)(p := None)"] show ?thesis
        by (simp add: write_file_def write_calls_def fault_hits_def temps_make_dirs)
    next
      case at_rename
      with assms Some x dirs [of "Some x"] restores [of "(temps st)(p := None)"] show ?thesis
        by (simp add: write_file_def write_calls_def fault_hits_def temps_make_dirs
              numeral_2_eq_2)
    next
      case past
      then have "n - length ?ds = Suc (Suc (Suc (n - length ?ds - 3)))" by simp
      with past assms Some x dirs [of "Some x"] ok show ?thesis
        by (simp add: write_file_def write_calls_def fault_hits_def numeral_3_eq_3)
    qed
  qed
qed

lemma remove_file_result:
  assumes "resolve (files st) root r = Inr p"
  shows "remove_file f st root r =
     (if node_at (files st) p = None then (Inl NotFound, st)
      else if (case f of None \<Rightarrow> False | Some x \<Rightarrow> fault_hits x [RemoveNode p])
      then (Inl FilesystemError, st)
      else (Inr (), st\<lparr>files := AList.delete p (files st)\<rparr>))"
proof (cases f)
  case None
  with assms show ?thesis by (simp add: remove_file_def)
next
  case (Some x)
  obtain n k where x: "x = Fault n k" by (cases x)
  with assms Some show ?thesis
    by (cases n) (simp_all add: remove_file_def fault_hits_def)
qed

text \<open>The state machine of \<open>apply_patch\<close> once the path of the target is accepted.\<close>

lemma apply_patch_accepted:
  assumes "resolve (files st) root (target operation) = Inr p"
  shows "apply_patch f derive summary st root operation =
     (if (node_at (files st) p \<noteq> None) = (kind operation = create_file)
      then (Rejected PreconditionFailed, st)
      else (case (if kind operation = create_file then Inr []
                  else read_file st root (target operation)) of
              Inl e \<Rightarrow> (Rejected e, st)
            | Inr old \<Rightarrow>
                (case (if kind operation = delete_file
                       then remove_file f st root (target operation)
                       else write_file f st root (target operation) (new_text operation)) of
                   (Inl e, st') \<Rightarrow> (Rejected e, st')
                 | (Inr u, st') \<Rightarrow>
                     (DiffComputed
                        \<lparr>operation_type = kind operation,
                         file_path = target operation,
                         old_content = old,
                         new_content = new_text operation,
                         diff_lines = derive old (new_text operation),
                         message = summary operation\<rparr>,
                      st'))))"
  using assms by (cases operation) (auto simp: apply_patch_def split: sum.splits prod.splits)

lemma read_file_accepted:
  assumes "resolve (files st) root r = Inr p"
  shows "read_file st root r =
     (case node_at (files st) p of
        None \<Rightarrow> Inl NotFound
      | Some (File text) \<Rightarrow> Inr text
      | Some other \<Rightarrow> Inl NotAFile)"
  using assms by (simp add: read_file_def)

section \<open>Properties of the sandbox\<close>

subsection \<open>PathGuard\<close>


















subsection \<open>FileStore, PatchEngine and SandboxManager stay inside\<close>






lemma destroy_removes:
  assumes "rootFor sessions sessionId = Inr root" and "prefix root q"
  shows "node_at (files (snd (destroy sessionId sessions st))) q = None"
  using assms
  by (simp add: destroy_def rootFor_def node_at_filter [of "\<lambda>p. \<not> prefix root p"]
        split: option.splits)

lemma create_outside:
  assumes "q \<noteq> base @ [sessionId]"
  shows "node_at (files (snd (snd (create base sessionId sessions st)))) q = node_at (files st) q"
  using assms by (simp add: create_def Let_def node_at_update)

subsection \<open>The listing\<close>




subsection \<open>The scan\<close>


text \<open>The bound of the walk is no restriction: more levels find nothing more.\<close>

lemma length_le_deepest: "entry \<in> set fs \<Longrightarrow> length (fst entry) \<le> deepest fs"
proof -
  have "d \<le> fold (\<lambda>entry d. max (length (fst entry)) d) fs d
      \<and> (\<forall>entry\<in>set fs. length (fst entry) \<le> fold (\<lambda>entry d. max (length (fst entry)) d) fs d)"
    for d
  proof (induction fs arbitrary: d)
    case Nil
    show ?case by simp
  next
    case (Cons e fs)
    from Cons.IH [of "max (length (fst e)) d"] show ?case by auto
  qed
  then show "entry \<in> set fs \<Longrightarrow> length (fst entry) \<le> deepest fs"
    by (simp add: deepest_def)
qed

lemma child_names_deepest: "deepest fs \<le> length dir \<Longrightarrow> child_names fs dir = []"
proof -
  assume deep: "deepest fs \<le> length dir"
  have "\<not> (fst entry \<noteq> [] \<and> butlast (fst entry) = dir)" if "entry \<in> set fs" for entry
  proof
    assume e: "fst entry \<noteq> [] \<and> butlast (fst entry) = dir"
    then have "length (fst entry) = Suc (length dir)"
      by (metis append_butlast_last_id length_append_singleton)
    with length_le_deepest [OF that] deep show False by simp
  qed
  then have "filter (\<lambda>entry. fst entry \<noteq> [] \<and> butlast (fst entry) = dir) fs = []"
    by (simp add: filter_empty_conv)
  then show ?thesis
    by (simp add: child_names_def)
qed

lemma walk_levels_enough:
  "deepest fs \<le> levels + length (root @ rel)
     \<Longrightarrow> walk (Suc levels) fs root rel = walk levels fs root rel"
proof (induction levels arbitrary: rel)
  case 0
  then have "child_names fs (root @ rel) = []"
    by (intro child_names_deepest) simp
  then show ?case by simp
next
  case (Suc levels)
  have "walk (Suc levels) fs root (rel @ [n]) = walk levels fs root (rel @ [n])" for n
    using Suc.prems by (intro Suc.IH) simp
  then show ?case
    by (simp add: Let_def)
qed



section \<open>Properties of the patch state machine\<close>

text \<open>The canonical form of a path depends on the symlinks of the filesystem only.\<close>

lemma canonicalize_same_links:
  assumes "\<And>q t. (node_at fs' q = Some (Symlink t)) = (node_at fs q = Some (Symlink t))"
  shows "canonicalize fuel fs' cur segs = canonicalize fuel fs cur segs"
  using assms
proof (induction fuel fs cur segs rule: canonicalize.induct)
  case (1 fuel fs cur)
  show ?case by simp
next
  case (2 fuel fs cur seg rest)
  note same = "2.prems"
  consider (skip) "seg = [] \<or> seg = str ''.''"
    | (up) "\<not> (seg = [] \<or> seg = str ''.'')" "seg = str ''..''"
    | (entry) "\<not> (seg = [] \<or> seg = str ''.'')" "seg \<noteq> str ''..''"
    by blast
  then show ?case
  proof cases
    case skip
    from "2.IH"(1) [OF skip same] skip show ?thesis by auto
  next
    case up
    from "2.IH"(2) [OF up same] up show ?thesis by simp
  next
    case entry
    have other: "(case node_at fs' (cur @ [seg]) of
                    Some (Symlink tg) \<Rightarrow> x tg
                  | _ \<Rightarrow> y) = y"
      if "\<And>t. node_at fs (cur @ [seg]) \<noteq> Some (Symlink t)"
      for x :: "jsstring \<Rightarrow> path option" and y
      using that same by (auto split: option.splits node.splits)
    show ?thesis
    proof (cases "node_at fs (cur @ [seg])")
      case None
      from "2.IH"(3) [OF entry None same] entry None show ?thesis
        by (simp add: other)
    next
      case (Some n)
      show ?thesis
      proof (cases n)
        case (File x)
        from "2.IH"(4) [OF entry Some File same] entry Some File show ?thesis
          by (simp add: other)
      next
        case Directory
        from "2.IH"(5) [OF entry Some Directory same] entry Some Directory show ?thesis
          by (simp add: other)
      next
        case (Symlink t)
        with Some have t: "node_at fs (cur @ [seg]) = Some (Symlink t)" by simp
        then have t': "node_at fs' (cur @ [seg]) = Some (Symlink t)" by (simp add: same)
        show ?thesis
        proof (cases fuel)
          case 0
          with entry t t' show ?thesis by simp
        next
          case (Suc k)
          from "2.IH"(6) [OF entry Some Symlink Suc same] entry t t' Suc show ?thesis
            by simp
        qed
      qed
    qed
  qed
qed

lemma resolve_same_links:
  assumes "\<And>q t. (node_at fs' q = Some (Symlink t)) = (node_at fs q = Some (Symlink t))"
  shows "resolve fs' root r = resolve fs root r"
  by (simp add: resolve_def canonicalize_same_links [of fs' fs, OF assms])

text \<open>
  An operation that passes validation: the path of its target is accepted, the target
  exists unless the operation creates it, and the old content is the content of the
  file there.
\<close>

lemma apply_patch_valid:
  assumes "apply_patch None derive summary st root operation = (DiffComputed result, applied)"
    and "resolve (files st) root (target operation) = Inr p"
  shows "(node_at (files st) p = None) = (kind operation = create_file)"
    and "kind operation \<noteq> create_file
      \<Longrightarrow> node_at (files st) p = Some (File (old_content result))"
    and "kind operation = create_file \<Longrightarrow> old_content result = []"
proof -
  from assms show v: "(node_at (files st) p = None) = (kind operation = create_file)"
    by (auto simp: apply_patch_accepted [OF assms(2)] split: if_splits)
  from assms v show "node_at (files st) p = Some (File (old_content result))"
    if "kind operation \<noteq> create_file"
    using that
    by (auto simp: apply_patch_accepted [OF assms(2)] read_file_accepted [OF assms(2)]
          split: if_splits sum.splits prod.splits option.splits node.splits)
  from assms v show "old_content result = []" if "kind operation = create_file"
    using that
    by (auto simp: apply_patch_accepted [OF assms(2)] split: if_splits sum.splits prod.splits)
qed

text \<open>Without an error the operation is applied: what the state holds afterwards.\<close>

lemma apply_patch_applied:
  assumes "apply_patch None derive summary st root operation = (DiffComputed result, applied)"
    and "resolve (files st) root (target operation) = Inr p"
  shows "applied =
      (if kind operation = delete_file then st\<lparr>files := AList.delete p (files st)\<rparr>
       else st\<lparr>files := AList.update p (File (new_text operation))
                          (fold (\<lambda>q. AList.update q Directory)
                             (missing_parents (files st) root p) (files st)),
               temps := (temps st)(p := None)\<rparr>)"
    and "result =
      \<lparr>operation_type = kind operation, file_path = target operation,
       old_content = (case node_at (files st) p of Some (File text) \<Rightarrow> text | _ \<Rightarrow> []),
       new_content = new_text operation,
       diff_lines = derive (case node_at (files st) p of Some (File text) \<Rightarrow> text | _ \<Rightarrow> [])
                      (new_text operation),
       message = summary operation\<rparr>"
proof -
  note valid = apply_patch_valid [OF assms]
  from assms valid(1) show "applied =
      (if kind operation = delete_file then st\<lparr>files := AList.delete p (files st)\<rparr>
       else st\<lparr>files := AList.update p (File (new_text operation))
                          (fold (\<lambda>q. AList.update q Directory)
                             (missing_parents (files st) root p) (files st)),
               temps := (temps st)(p := None)\<rparr>)"
    by (auto simp: apply_patch_accepted [OF assms(2)] write_file_result [OF assms(2)]
          remove_file_result [OF assms(2)] split: if_splits sum.splits)
  have old: "old_content result = (case node_at (files st) p of Some (File text) \<Rightarrow> text | _ \<Rightarrow> [])"
  proof (cases "kind operation = create_file")
    case True
    with valid(1,3) show ?thesis by simp
  next
    case False
    with valid(2) show ?thesis by simp
  qed
  from assms have "result =
      \<lparr>operation_type = kind operation, file_path = target operation,
       old_content = old_content result, new_content = new_text operation,
       diff_lines = derive (old_content result) (new_text operation),
       message = summary operation\<rparr>"
    by (auto simp: apply_patch_accepted [OF assms(2)] split: if_splits sum.splits prod.splits)
  with old show "result =
      \<lparr>operation_type = kind operation, file_path = target operation,
       old_content = (case node_at (files st) p of Some (File text) \<Rightarrow> text | _ \<Rightarrow> []),
       new_content = new_text operation,
       diff_lines = derive (case node_at (files st) p of Some (File text) \<Rightarrow> text | _ \<Rightarrow> [])
                      (new_text operation),
       message = summary operation\<rparr>"
    by simp
qed

text \<open>With an error in step 3 the operation is rejected and the state is the one before.\<close>

lemma apply_patch_rejected:
  assumes "apply_patch None derive summary st root operation = (DiffComputed result, applied)"
    and "resolve (files st) root (target operation) = Inr p"
    and "fault_hits f (patch_calls (files st) root operation)"
    and "temps st p = None"
  shows "apply_patch (Some f) derive summary st root operation = (Rejected FilesystemError, st)"
proof -
  note valid = apply_patch_valid [OF assms(1,2)]
  have same: "st\<lparr>temps := (temps st)(p := None)\<rparr> = st"
    using assms(4) by (simp add: fun_upd_idem)
  have old: "(if kind operation = create_file then Inr []
              else read_file st root (target operation)) = Inr (old_content result)"
    using valid by (auto simp: read_file_accepted [OF assms(2)])
  show ?thesis
  proof (cases "kind operation = delete_file")
    case True
    with assms(2,3) have "fault_hits f [RemoveNode p]"
      by (simp add: patch_calls_def)
    with True valid(1) old show ?thesis
      by (simp add: apply_patch_accepted [OF assms(2)] remove_file_result [OF assms(2)])
  next
    case False
    with assms(2,3) have "fault_hits f (write_calls (files st) root p (new_text operation))"
      by (simp add: patch_calls_def)
    with False valid(1) old same show ?thesis
      by (simp add: apply_patch_accepted [OF assms(2)] write_file_result [OF assms(2)])
  qed
qed

text \<open>After the operation, reading the target gives the new content, or nothing.\<close>

lemma apply_patch_read_back:
  assumes "apply_patch None derive summary st root operation = (DiffComputed result, applied)"
    and "resolve (files st) root (target operation) = Inr p"
  shows "read_file applied root (target operation)
      = (if kind operation = delete_file then Inl NotFound else Inr (new_text operation))"
proof -
  note valid = apply_patch_valid [OF assms]
  have no_link: "node_at (files st) p \<noteq> Some (Symlink t)" for t
    using valid(1,2) by (cases "kind operation = create_file") auto
  have "(node_at (files applied) q = Some (Symlink t)) = (node_at (files st) q = Some (Symlink t))"
    for q t
    using no_link [of t] missing_parents_absent [of "files st" root p]
    by (auto simp: apply_patch_applied(1) [OF assms] node_at_update node_at_delete
          node_at_make_dirs)
  then have "resolve (files applied) root (target operation) = Inr p"
    using assms(2) by (simp add: resolve_same_links [of "files applied" "files st"])
  then show ?thesis
    by (simp add: read_file_accepted apply_patch_applied(1) [OF assms] node_at_update
          node_at_delete)
qed

text \<open>
  C6. Take an operation that passes validation, so that without an error it is applied
  and ends in \<open>DiffComputed\<close>, and a filesystem error that hits one of the calls of
  step 3: a directory to create, the temporary file to create, to write or to rename,
  or the file to remove. With the error the operation ends in \<open>Rejected\<close> and the state
  is the one before the operation, at every path: nothing is applied. Without it the
  operation is applied wholly: the target holds the new content, or nothing after a
  delete, its missing parents are directories, every other path is as before, no
  temporary file is left, the result carries the old and the new content, and reading
  the target gives the new content.
\<close>

theorem apply_patch_all_or_nothing:
  assumes "apply_patch None derive summary st root operation = (DiffComputed result, applied)"
    and "resolve (files st) root (target operation) = Inr p"
    and "fault_hits f (patch_calls (files st) root operation)"
    and "temps st p = None"
  shows "apply_patch (Some f) derive summary st root operation = (Rejected FilesystemError, st)
    \<and> node_at (files applied) p
        = (if kind operation = delete_file then None else Some (File (new_text operation)))
    \<and> (\<forall>q. q \<noteq> p \<longrightarrow>
          node_at (files applied) q
            = (if kind operation \<noteq> delete_file \<and> q \<in> set (missing_parents (files st) root p)
               then Some Directory else node_at (files st) q))
    \<and> temps applied = temps st
    \<and> result =
        \<lparr>operation_type = kind operation, file_path = target operation,
         old_content = (case node_at (files st) p of Some (File text) \<Rightarrow> text | _ \<Rightarrow> []),
         new_content = new_text operation,
         diff_lines = derive (case node_at (files st) p of Some (File text) \<Rightarrow> text | _ \<Rightarrow> [])
                        (new_text operation),
         message = summary operation\<rparr>
    \<and> read_file applied root (target operation)
        = (if kind operation = delete_file then Inl NotFound else Inr (new_text operation))"
proof (intro conjI allI impI)
  note applied = apply_patch_applied(1) [OF assms(1,2)]
  show "apply_patch (Some f) derive summary st root operation = (Rejected FilesystemError, st)"
    by (rule apply_patch_rejected [OF assms])
  show "node_at (files applied) p
      = (if kind operation = delete_file then None else Some (File (new_text operation)))"
    by (simp add: applied node_at_update node_at_delete)
  show "node_at (files applied) q
      = (if kind operation \<noteq> delete_file \<and> q \<in> set (missing_parents (files st) root p)
         then Some Directory else node_at (files st) q)"
    if "q \<noteq> p" for q
    using that by (simp add: applied node_at_update node_at_delete node_at_make_dirs)
  show "temps applied = temps st"
    using assms(4) by (simp add: applied fun_upd_idem)
  show "result =
        \<lparr>operation_type = kind operation, file_path = target operation,
         old_content = (case node_at (files st) p of Some (File text) \<Rightarrow> text | _ \<Rightarrow> []),
         new_content = new_text operation,
         diff_lines = derive (case node_at (files st) p of Some (File text) \<Rightarrow> text | _ \<Rightarrow> [])
                        (new_text operation),
         message = summary operation\<rparr>"
    by (rule apply_patch_applied(2) [OF assms(1,2)])
  show "read_file applied root (target operation)
      = (if kind operation = delete_file then Inl NotFound else Inr (new_text operation))"
    by (rule apply_patch_read_back [OF assms(1,2)])
qed

theorem apply_patch_all_or_nothing_witness:
  "fst (apply_patch None (\<lambda>old new. []) (\<lambda>operation. str ''Created'')
          \<lparr>files = [([str ''sandbox'', str ''s1''], Directory)], temps = \<lambda>p. None\<rparr>
          [str ''sandbox'', str ''s1''] (CreateFile (str ''d/x.tf'') (str ''x'')))
     = DiffComputed
         \<lparr>operation_type = create_file, file_path = str ''d/x.tf'', old_content = [],
            new_content = str ''x'', diff_lines = [], message = str ''Created''\<rparr>
   \<and> resolve [([str ''sandbox'', str ''s1''], Directory)] [str ''sandbox'', str ''s1'']
        (str ''d/x.tf'')
     = Inr [str ''sandbox'', str ''s1'', str ''d'', str ''x.tf'']
   \<and> patch_calls [([str ''sandbox'', str ''s1''], Directory)] [str ''sandbox'', str ''s1'']
        (CreateFile (str ''d/x.tf'') (str ''x''))
     = [MakeDir [str ''sandbox'', str ''s1'', str ''d''],
        CreateTemp [str ''sandbox'', str ''s1'', str ''d'', str ''x.tf''],
        WriteTemp [str ''sandbox'', str ''s1'', str ''d'', str ''x.tf''] (str ''x''),
        RenameTemp [str ''sandbox'', str ''s1'', str ''d'', str ''x.tf'']]
   \<and> fault_hits (Fault 3 0)
        (patch_calls [([str ''sandbox'', str ''s1''], Directory)] [str ''sandbox'', str ''s1'']
           (CreateFile (str ''d/x.tf'') (str ''x'')))
   \<and> apply_patch (Some (Fault 3 0)) (\<lambda>old new. []) (\<lambda>operation. str ''Created'')
        \<lparr>files = [([str ''sandbox'', str ''s1''], Directory)], temps = \<lambda>p. None\<rparr>
        [str ''sandbox'', str ''s1''] (CreateFile (str ''d/x.tf'') (str ''x''))
     = (Rejected FilesystemError,
        \<lparr>files = [([str ''sandbox'', str ''s1''], Directory)], temps = \<lambda>p. None\<rparr>)
   \<and> node_at
        (files (snd (apply_patch None (\<lambda>old new. []) (\<lambda>operation. str ''Created'')
           \<lparr>files = [([str ''sandbox'', str ''s1''], Directory)], temps = \<lambda>p. None\<rparr>
           [str ''sandbox'', str ''s1''] (CreateFile (str ''d/x.tf'') (str ''x'')))))
        [str ''sandbox'', str ''s1'', str ''d'', str ''x.tf''] = Some (File (str ''x''))
   \<and> node_at
        (files (snd (apply_patch None (\<lambda>old new. []) (\<lambda>operation. str ''Created'')
           \<lparr>files = [([str ''sandbox'', str ''s1''], Directory)], temps = \<lambda>p. None\<rparr>
           [str ''sandbox'', str ''s1''] (CreateFile (str ''d/x.tf'') (str ''x'')))))
        [str ''sandbox'', str ''s1'', str ''d''] = Some Directory
   \<and> read_file
        (snd (apply_patch None (\<lambda>old new. []) (\<lambda>operation. str ''Created'')
           \<lparr>files = [([str ''sandbox'', str ''s1''], Directory)], temps = \<lambda>p. None\<rparr>
           [str ''sandbox'', str ''s1''] (CreateFile (str ''d/x.tf'') (str ''x''))))
        [str ''sandbox'', str ''s1''] (str ''d/x.tf'') = Inr (str ''x'')"
proof -
  let ?st = "\<lparr>files = [([str ''sandbox'', str ''s1''], Directory)], temps = \<lambda>p. None\<rparr>"
  let ?root = "[str ''sandbox'', str ''s1'']"
  let ?op = "CreateFile (str ''d/x.tf'') (str ''x'')"
  let ?p = "[str ''sandbox'', str ''s1'', str ''d'', str ''x.tf'']"
  let ?result = "\<lparr>operation_type = create_file, file_path = str ''d/x.tf'', old_content = [],
            new_content = str ''x'', diff_lines = [], message = str ''Created''\<rparr>"
  let ?applied = "snd (apply_patch None (\<lambda>old new. []) (\<lambda>operation. str ''Created'') ?st ?root ?op)"
  have accepted: "resolve (files ?st) ?root (target ?op) = Inr ?p"
    by (simp add: resolve_def max_symlinks_def path_segments_def split_def str_def
          is_absolute_def startsWith_def node_at_def descendant_def)
  have parents: "missing_parents (files ?st) ?root ?p = [[str ''sandbox'', str ''s1'', str ''d'']]"
    by (simp add: missing_parents_def node_at_def str_def)
  have calls: "patch_calls (files ?st) ?root ?op
      = [MakeDir [str ''sandbox'', str ''s1'', str ''d''], CreateTemp ?p,
         WriteTemp ?p (str ''x''), RenameTemp ?p]"
    by (simp add: patch_calls_def write_calls_def accepted [simplified] parents [simplified])
  have hits: "fault_hits (Fault 3 0) (patch_calls (files ?st) ?root ?op)"
    unfolding calls by (simp add: fault_hits_def)
  have absent: "node_at (files ?st) ?p = None"
    by (simp add: node_at_def str_def)
  have accepted': "resolve (files ?st) ?root (str ''d/x.tf'') = Inr ?p"
    using accepted by simp
  have written: "fst (write_file None ?st ?root (str ''d/x.tf'') (str ''x'')) = Inr ()"
    unfolding write_file_result [OF accepted'] by simp
  have computed: "fst (apply_patch None (\<lambda>old new. []) (\<lambda>operation. str ''Created'') ?st ?root ?op)
      = DiffComputed ?result"
    unfolding apply_patch_accepted [OF accepted]
    using absent written
    by (cases "write_file None ?st ?root (str ''d/x.tf'') (str ''x'')") simp
  then have applied: "apply_patch None (\<lambda>old new. []) (\<lambda>operation. str ''Created'') ?st ?root ?op
      = (DiffComputed ?result, ?applied)"
    by (simp add: prod_eq_iff)
  have free: "temps ?st ?p = None"
    by simp
  note all = apply_patch_all_or_nothing [OF applied accepted hits free]
  from all have rejected: "apply_patch (Some (Fault 3 0)) (\<lambda>old new. [])
      (\<lambda>operation. str ''Created'') ?st ?root ?op = (Rejected FilesystemError, ?st)"
    by (rule conjunct1)
  from all have target: "node_at (files ?applied) ?p = Some (File (str ''x''))"
    by simp
  note others = all [THEN conjunct2, THEN conjunct2, THEN conjunct1, rule_format]
  have parent: "node_at (files ?applied) [str ''sandbox'', str ''s1'', str ''d'']
      = Some Directory"
    using others [of "[str ''sandbox'', str ''s1'', str ''d'']"]
    by (simp add: parents [simplified])
  from all have reads: "read_file ?applied ?root (str ''d/x.tf'') = Inr (str ''x'')"
    by simp
  let ?fs = "[([str ''sandbox'', str ''s1''], Directory)]"
  have c2: "resolve ?fs ?root (str ''d/x.tf'') = Inr ?p"
    using accepted by simp
  have c3: "patch_calls ?fs ?root ?op
      = [MakeDir [str ''sandbox'', str ''s1'', str ''d''], CreateTemp ?p,
         WriteTemp ?p (str ''x''), RenameTemp ?p]"
    using calls by simp
  have c4: "fault_hits (Fault 3 0) (patch_calls ?fs ?root ?op)"
    using hits by simp
  from computed c2 c3 c4 rejected target parent reads show ?thesis
    by (intro conjI)
qed

end
